theory Spec2Isabelle
  imports Main
begin

section \<open>The editor state of main.c\<close>

text \<open>
  The editor keeps its whole state in file-scope variables: the array \<open>lines\<close> of
  NUL-terminated strings with its count \<open>num_lines\<close>, the cursor \<open>cur_x\<close>,
  \<open>cur_y\<close>, the first visible row \<open>top_line\<close>, the two arrays \<open>undo_stack\<close> and
  \<open>redo_stack\<close> with their counts, and \<open>search_query\<close>. The model passes them
  around as one record. A C string is the list of its bytes before the terminating NUL;
  an array with its count is a list, so \<open>num_lines\<close>, \<open>undo_count\<close> and
  \<open>redo_count\<close> are lengths. The C \<open>int\<close>s are modelled as \<open>int\<close>: every value
  the functions compute is bounded by a line length or a line count plus two. Calls of
  \<open>beep()\<close> are counted in the field \<open>bell\<close>.

  Every \<open>malloc\<close> or \<open>strdup\<close> whose result the code tests is a branch of the model:
  the function takes the outcome as a Boolean argument. The copies the code does not
  test (the \<open>strdup\<close> of each line of a snapshot, the buffer of the merge in
  \<open>backspace\<close>) are taken to succeed: the code has no branch for their failure.
  The pointer \<open>lines\<close> of a snapshot can be \<open>NULL\<close>, hence the option.
\<close>

definition MAX_LINES :: int where
  "MAX_LINES = 10000"

definition MAX_COL :: int where
  "MAX_COL = 4096"

definition MAX_SEARCH :: nat where
  "MAX_SEARCH = 256"

definition UNDO_DEPTH :: nat where
  "UNDO_DEPTH = 32"

record UndoSnapshot =
  snap_lines :: "string list option"
  snap_cur_x :: int
  snap_cur_y :: int
  snap_top_line :: int

record editor =
  lines :: "string list"
  cur_x :: int
  cur_y :: int
  top_line :: int
  undo_stack :: "UndoSnapshot list"
  redo_stack :: "UndoSnapshot list"
  search_query :: string
  bell :: nat

text \<open>
  What makes a run leave the states described here: a read behind the end of a line's
  buffer, and a read through a \<open>NULL\<close> pointer.
\<close>

datatype fault = Out_of_bounds | Null_pointer

definition num_lines :: "editor \<Rightarrow> int" where
  "num_lines s = int (length (lines s))"

definition undo_count :: "editor \<Rightarrow> nat" where
  "undo_count s = length (undo_stack s)"

definition redo_count :: "editor \<Rightarrow> nat" where
  "redo_count s = length (redo_stack s)"

definition beep :: "editor \<Rightarrow> editor" where
  "beep s = s\<lparr>bell := Suc (bell s)\<rparr>"

text \<open>
  The commands index \<open>lines[cur_y]\<close> and copy \<open>cur_x\<close> bytes of it. In C this is
  defined only while the cursor lies inside the document, which is what \<open>cursor_ok\<close>
  says; the theorems about the commands assume it.
\<close>

definition cursor_ok :: "editor \<Rightarrow> bool" where
  "cursor_ok s =
     (0 \<le> cur_y s \<and> cur_y s < num_lines s \<and>
      0 \<le> cur_x s \<and> cur_x s \<le> int (length (lines s ! nat (cur_y s))))"

section \<open>Snapshots: push_undo, do_undo, do_redo\<close>

text \<open>
  The three functions copy the live document into a stack slot with the same loop
  (\<open>malloc\<close> of the pointer array, \<open>strdup\<close> of every line, then the cursor and the
  viewport); \<open>capture\<close> is that copy. \<open>do_undo\<close> and \<open>do_redo\<close> move a slot's lines
  and cursor back into the live variables; \<open>restore\<close> is that assignment, \<open>ls\<close> the
  lines the slot points to.
\<close>

definition capture :: "editor \<Rightarrow> UndoSnapshot" where
  "capture s =
     \<lparr>snap_lines = Some (lines s), snap_cur_x = cur_x s, snap_cur_y = cur_y s,
      snap_top_line = top_line s\<rparr>"

definition restore :: "string list \<Rightarrow> UndoSnapshot \<Rightarrow> editor \<Rightarrow> editor" where
  "restore ls sn s =
     s\<lparr>lines := ls, cur_x := snap_cur_x sn, cur_y := snap_cur_y sn,
       top_line := snap_top_line sn\<rparr>"

text \<open>
  \<open>push_undo\<close>. The flag \<open>ok\<close> is the outcome of
  \<open>malloc(sizeof(char*) * s->num_lines)\<close> (line 70): when it fails the function returns
  at line 73, after the eviction of lines 62-67 and before the count is incremented and
  the redo stack is cleared.
\<close>

definition push_undo :: "bool \<Rightarrow> editor \<Rightarrow> editor" where
  "push_undo ok s =
     (let st = (if undo_count s = UNDO_DEPTH then tl (undo_stack s) else undo_stack s)
      in if \<not> ok then s\<lparr>undo_stack := st\<rparr>
         else s\<lparr>undo_stack := st @ [capture s], redo_stack := []\<rparr>)"

text \<open>
  \<open>save_on\<close> is what \<open>do_undo\<close> does to the redo stack and \<open>do_redo\<close> to the undo
  stack before restoring (lines 92-112, 134-154); \<open>ok\<close> is the outcome of the
  \<open>malloc\<close> of the pointer array. While the stack has room, a failed allocation
  leaves it as it is. When it is full, its oldest slot is freed and the others are moved
  down; the last slot then keeps the cursor fields it had, gets the live line count, and
  its \<open>lines\<close> are the new copy, or \<open>NULL\<close> when the allocation failed. The count
  stays at \<open>UNDO_DEPTH\<close> either way.
\<close>

definition save_on :: "bool \<Rightarrow> UndoSnapshot list \<Rightarrow> editor \<Rightarrow> UndoSnapshot list" where
  "save_on ok st s =
     (if length st < UNDO_DEPTH then (if ok then st @ [capture s] else st)
      else tl st @ [if ok then capture s else (last st)\<lparr>snap_lines := None\<rparr>])"

text \<open>
  \<open>do_undo\<close> and \<open>do_redo\<close>. The top of a stack is its last element. The live
  lines are freed and replaced by \<open>s->lines[i]\<close> for every \<open>i\<close> below the slot's line
  count, which reads through \<open>NULL\<close> when the slot has no lines.
\<close>

definition do_undo :: "bool \<Rightarrow> editor \<Rightarrow> fault + editor" where
  "do_undo ok s =
     (if undo_count s = 0 then Inr (beep s)
      else
        let sn = last (undo_stack s);
            r = save_on ok (redo_stack s) s
        in case snap_lines sn of
             None \<Rightarrow> Inl Null_pointer
           | Some ls \<Rightarrow>
               Inr ((restore ls sn s)\<lparr>undo_stack := butlast (undo_stack s), redo_stack := r\<rparr>))"

definition do_redo :: "bool \<Rightarrow> editor \<Rightarrow> fault + editor" where
  "do_redo ok s =
     (if redo_count s = 0 then Inr (beep s)
      else
        let r = last (redo_stack s);
            u = save_on ok (undo_stack s) s
        in case snap_lines r of
             None \<Rightarrow> Inl Null_pointer
           | Some ls \<Rightarrow>
               Inr ((restore ls r s)\<lparr>redo_stack := butlast (redo_stack s), undo_stack := u\<rparr>))"

section \<open>The editing commands: newline, insert_char, backspace\<close>

text \<open>
  Each command first calls \<open>push_undo\<close>; \<open>ok\<close> is the outcome of that call's
  allocation. \<open>mem\<close> is the outcome of the allocation of the edited buffers, which the
  code tests after the capacity check: \<open>left\<close> and \<open>right\<close> in \<open>newline\<close> (line 477,
  true when both succeed), \<open>newl\<close> in \<open>insert_char\<close> (line 434). On a failure the
  command returns with the document as it was.
\<close>

definition newline :: "bool \<Rightarrow> bool \<Rightarrow> editor \<Rightarrow> editor" where
  "newline ok mem s =
     (let s1 = push_undo ok s in
      if num_lines s1 + 1 \<ge> MAX_LINES then s1
      else if \<not> mem then s1
      else
        let y = nat (cur_y s1); x = nat (cur_x s1); ln = lines s1 ! y
        in s1\<lparr>lines := take y (lines s1) @ [take x ln, drop x ln] @ drop (Suc y) (lines s1),
              cur_y := cur_y s1 + 1, cur_x := 0\<rparr>)"

text \<open>
  \<open>insert_char\<close>: \<open>cols\<close> is the screen width \<open>getmaxyx\<close> reports, \<open>c\<close> the byte
  \<open>(char)c\<close> (\<open>main\<close> passes a printable character, \<open>32 \<le> c < 127\<close>). \<open>ok\<close> is
  the outcome of its own \<open>push_undo\<close>, \<open>ok'\<close> that of the \<open>push_undo\<close> inside the
  \<open>newline\<close> it calls when the cursor has reached the screen width; \<open>mem\<close> is the
  outcome of the buffer allocation of the path taken, \<open>newl\<close> or that of \<open>newline\<close>.
\<close>

definition insert_char ::
  "bool \<Rightarrow> bool \<Rightarrow> bool \<Rightarrow> char \<Rightarrow> int \<Rightarrow> editor \<Rightarrow> editor" where
  "insert_char ok ok' mem c cols s =
     (let s1 = push_undo ok s in
      if cur_x s1 \<ge> cols - 1 then newline ok' mem s1
      else
        let y = nat (cur_y s1); x = nat (cur_x s1); ln = lines s1 ! y
        in if int (length ln) + 2 \<ge> MAX_COL then s1
           else if \<not> mem then s1
           else s1\<lparr>lines := (lines s1)[y := take x ln @ [c] @ drop x ln],
                   cur_x := cur_x s1 + 1\<rparr>)"

definition backspace :: "bool \<Rightarrow> editor \<Rightarrow> editor" where
  "backspace ok s =
     (let s1 = push_undo ok s in
      if cur_x s1 > 0 then
        let y = nat (cur_y s1); x = nat (cur_x s1); ln = lines s1 ! y
        in s1\<lparr>lines := (lines s1)[y := take (x - 1) ln @ drop x ln],
              cur_x := cur_x s1 - 1\<rparr>
      else if cur_y s1 > 0 then
        let y = nat (cur_y s1); prev = lines s1 ! (y - 1); cur = lines s1 ! y
        in if int (length prev) + int (length cur) + 1 \<ge> MAX_COL then s1
           else s1\<lparr>lines := take (y - 1) (lines s1) @ [prev @ cur] @ drop (Suc y) (lines s1),
                   cur_y := cur_y s1 - 1, cur_x := int (length prev)\<rparr>
      else s1)"

text \<open>
  The three mutating commands as \<open>main\<close> dispatches them, with the allocation outcomes
  of the call: \<open>Insert_char c cols\<close> is a printable key typed on a screen of width
  \<open>cols\<close>. \<open>captured\<close> says that a \<open>push_undo\<close> of the call recorded a snapshot:
  its own, or for \<open>insert_char\<close> at the screen width also the one of \<open>newline\<close>.
\<close>

datatype edit = Insert_char char int | Backspace | Newline

fun mutate :: "bool \<Rightarrow> bool \<Rightarrow> bool \<Rightarrow> edit \<Rightarrow> editor \<Rightarrow> editor" where
  "mutate ok ok' mem (Insert_char c cols) s = insert_char ok ok' mem c cols s"
| "mutate ok ok' mem Backspace s = backspace ok s"
| "mutate ok ok' mem Newline s = newline ok mem s"

fun captured :: "bool \<Rightarrow> bool \<Rightarrow> edit \<Rightarrow> editor \<Rightarrow> bool" where
  "captured ok ok' (Insert_char c cols) s = (ok \<or> (cur_x s \<ge> cols - 1 \<and> ok'))"
| "captured ok ok' Backspace s = ok"
| "captured ok ok' Newline s = ok"

text \<open>The live state: the document, the cursor and the viewport.\<close>

definition same_live :: "editor \<Rightarrow> editor \<Rightarrow> bool" where
  "same_live s t =
     (lines s = lines t \<and> cur_x s = cur_x t \<and> cur_y s = cur_y t \<and> top_line s = top_line t)"

section \<open>search_forward\<close>

text \<open>
  \<open>strstr\<close> of the C library, as the offset of the first occurrence of the needle.
\<close>

fun strstr :: "string \<Rightarrow> string \<Rightarrow> nat option" where
  "strstr [] needle = (if needle = [] then Some 0 else None)"
| "strstr (c # hay) needle =
     (if take (length needle) (c # hay) = needle then Some 0
      else map_option Suc (strstr hay needle))"

text \<open>
  The body shared by the two loops of \<open>search_forward\<close> once the column offset is 0:
  the rows are tried in order, \<open>y\<close> is the index of the first of them.
\<close>

fun scan_lines :: "string \<Rightarrow> string list \<Rightarrow> int \<Rightarrow> (int \<times> int) option" where
  "scan_lines q [] y = None"
| "scan_lines q (ln # rest) y =
     (case strstr ln q of
        Some x \<Rightarrow> Some (y, int x)
      | None \<Rightarrow> scan_lines q rest (y + 1))"

text \<open>
  The first loop starts on the cursor's row at \<open>line + cur_x + 1\<close>. With the cursor at
  the end of its line this address is one byte behind the terminating NUL. The buffers
  that \<open>load_file\<close>, \<open>insert_char\<close>, \<open>newline\<close>, the merge of \<open>backspace\<close> and the
  snapshots allocate end at the NUL, and there the read leaves the buffer: the model
  reports a fault. A line that \<open>backspace\<close> has shortened in place (line 449) keeps its
  buffer, so it has a byte behind the NUL, which is a NUL as well: \<open>strstr\<close> then sees
  the empty string and the search goes on with the next row. The argument \<open>spare\<close> says
  whether the buffer of the cursor's line has such a byte. The second loop runs over the
  rows \<open>0 \<le> y < start_y\<close>.
\<close>

definition search_forward :: "bool \<Rightarrow> editor \<Rightarrow> fault + editor" where
  "search_forward spare s =
     (if search_query s = [] then Inr (beep s)
      else
        let q = search_query s; start_y = cur_y s; start_x = cur_x s + 1 in
        if \<not> (0 \<le> start_y \<and> start_y < num_lines s \<and> 0 \<le> start_x \<and>
                (start_x \<le> int (length (lines s ! nat start_y)) \<or>
                 (start_x = int (length (lines s ! nat start_y)) + 1 \<and> spare)))
        then Inl Out_of_bounds
        else
          (case strstr (drop (nat start_x) (lines s ! nat start_y)) q of
             Some i \<Rightarrow> Inr (s\<lparr>cur_y := start_y, cur_x := start_x + int i\<rparr>)
           | None \<Rightarrow>
             (case scan_lines q (drop (Suc (nat start_y)) (lines s)) (start_y + 1) of
                Some (y, x) \<Rightarrow> Inr (s\<lparr>cur_y := y, cur_x := x\<rparr>)
              | None \<Rightarrow>
                (case scan_lines q (take (nat start_y) (lines s)) 0 of
                   Some (y, x) \<Rightarrow> Inr (s\<lparr>cur_y := y, cur_x := x\<rparr>)
                 | None \<Rightarrow> Inr (beep s)))))"

text \<open>
  \<open>prompt_search\<close> reads keys into \<open>buf\<close>, at most \<open>MAX_SEARCH - 1\<close> printable
  characters. The argument is \<open>None\<close> when the prompt is left with ESC, and the
  content of \<open>buf\<close> when it is left with Enter: \<open>strncpy\<close> then replaces the query
  and \<open>search_forward\<close> runs.
\<close>

definition prompt_search :: "string option \<Rightarrow> bool \<Rightarrow> editor \<Rightarrow> fault + editor" where
  "prompt_search entered spare s =
     (case entered of
        None \<Rightarrow> Inr s
      | Some buf \<Rightarrow> search_forward spare (s\<lparr>search_query := take (MAX_SEARCH - 1) buf\<rparr>))"

section \<open>Cursor keys, paging and redrawing\<close>

text \<open>
  The branches of the loop of \<open>main\<close> for the four arrow keys. Moving up or down
  clamps the column to the length of the new row.
\<close>

definition clamp_x :: "editor \<Rightarrow> editor" where
  "clamp_x s =
     (let l = int (length (lines s ! nat (cur_y s)))
      in if cur_x s > l then s\<lparr>cur_x := l\<rparr> else s)"

definition key_up :: "editor \<Rightarrow> editor" where
  "key_up s = (if cur_y s > 0 then clamp_x (s\<lparr>cur_y := cur_y s - 1\<rparr>) else s)"

definition key_down :: "editor \<Rightarrow> editor" where
  "key_down s =
     (if cur_y s < num_lines s - 1 then clamp_x (s\<lparr>cur_y := cur_y s + 1\<rparr>) else s)"

definition key_left :: "editor \<Rightarrow> editor" where
  "key_left s =
     (if cur_x s > 0 then s\<lparr>cur_x := cur_x s - 1\<rparr>
      else if cur_y s > 0 then
        s\<lparr>cur_y := cur_y s - 1, cur_x := int (length (lines s ! nat (cur_y s - 1)))\<rparr>
      else s)"

definition key_right :: "editor \<Rightarrow> editor" where
  "key_right s =
     (let l = int (length (lines s ! nat (cur_y s)))
      in if cur_x s < l then s\<lparr>cur_x := cur_x s + 1\<rparr>
         else if cur_y s < num_lines s - 1 then s\<lparr>cur_y := cur_y s + 1, cur_x := 0\<rparr>
         else s)"

text \<open>\<open>page_up\<close> and \<open>page_down\<close>; \<open>rows\<close> is the screen height.\<close>

definition page_up :: "int \<Rightarrow> editor \<Rightarrow> editor" where
  "page_up rows s =
     (let visible = (if rows - 1 \<le> 0 then 1 else rows - 1) in
      if cur_y s = 0 then s\<lparr>top_line := 0\<rparr>
      else
        let y = (if cur_y s - visible < 0 then 0 else cur_y s - visible);
            t = (if top_line s > y then y else top_line s)
        in clamp_x (s\<lparr>cur_y := y, top_line := t\<rparr>))"

definition page_down :: "int \<Rightarrow> editor \<Rightarrow> editor" where
  "page_down rows s =
     (let visible = (if rows - 1 \<le> 0 then 1 else rows - 1) in
      if cur_y s \<ge> num_lines s - 1 then
        s\<lparr>top_line := (if num_lines s > visible then num_lines s - visible else 0)\<rparr>
      else
        let y = (if cur_y s + visible \<ge> num_lines s - 1 then num_lines s - 1
                 else cur_y s + visible);
            desired_top = (if y - visible + 1 < 0 then 0 else y - visible + 1)
        in clamp_x (s\<lparr>cur_y := y, top_line := desired_top\<rparr>))"

text \<open>
  \<open>draw_screen\<close> paints the visible rows and then brings the cursor and the viewport
  into bounds (lines 400-411); the model keeps what it does to the variables.
\<close>

definition draw_screen :: "int \<Rightarrow> int \<Rightarrow> editor \<Rightarrow> editor" where
  "draw_screen rows cols s =
     (let visible = rows - 1;
          x = (if cur_x s < 0 then 0 else cur_x s);
          y0 = (if cur_y s < 0 then 0 else cur_y s);
          y = (if y0 \<ge> num_lines s then num_lines s - 1 else y0);
          disp_y = y - top_line s;
          t = (if disp_y < 0 then y
               else if disp_y \<ge> visible then y - visible + 1
               else top_line s)
      in s\<lparr>cur_x := x, cur_y := y, top_line := t\<rparr>)"

section \<open>load_file and the states the editor reaches\<close>

text \<open>
  The variables as their static initialisers leave them, around a given document.
\<close>

definition editor_init :: "string list \<Rightarrow> editor" where
  "editor_init ls =
     \<lparr>lines = ls, cur_x = 0, cur_y = 0, top_line = 0, undo_stack = [], redo_stack = [],
      search_query = [], bell = 0\<rparr>"

text \<open>
  \<open>load_file\<close>: the argument is \<open>None\<close> when there is no path or \<open>fopen\<close> fails,
  and otherwise the records \<open>getline\<close> returns, in order. Line 299 cuts the trailing
  newlines and carriage returns off a record, \<open>strdup\<close> copies it up to its first NUL.
\<close>

definition strip_eol :: "string \<Rightarrow> string" where
  "strip_eol buf = rev (dropWhile (\<lambda>c. c = CHR 0x0A \<or> c = CHR 0x0D) (rev buf))"

definition strdup :: "string \<Rightarrow> string" where
  "strdup buf = takeWhile (\<lambda>c. c \<noteq> CHR 0x00) buf"

definition load_file :: "string list option \<Rightarrow> editor" where
  "load_file f =
     (case f of
        None \<Rightarrow> editor_init [[]]
      | Some recs \<Rightarrow>
          let ls = map (\<lambda>buf. strdup (strip_eol buf)) (take (nat MAX_LINES) recs)
          in editor_init (if ls = [] then [[]] else ls))"

text \<open>
  The states of a run: \<open>main\<close> loads the file, draws the screen and then, for every
  key, runs the key's branch and draws the screen again. The outcome of every allocation
  and the size of the screen are arbitrary; a typed key is a printable character. A
  command that ends in a fault leaves the states described here.
\<close>

inductive reachable :: "editor \<Rightarrow> bool" where
  loaded: "reachable (load_file f)"
| typed: "reachable s \<Longrightarrow> 32 \<le> (of_char c :: nat) \<Longrightarrow> (of_char c :: nat) < 127 \<Longrightarrow>
          reachable (insert_char ok ok' mem c cols s)"
| erased: "reachable s \<Longrightarrow> reachable (backspace ok s)"
| entered: "reachable s \<Longrightarrow> reachable (newline ok mem s)"
| undone: "reachable s \<Longrightarrow> do_undo ok s = Inr s' \<Longrightarrow> reachable s'"
| redone: "reachable s \<Longrightarrow> do_redo ok s = Inr s' \<Longrightarrow> reachable s'"
| up: "reachable s \<Longrightarrow> reachable (key_up s)"
| down: "reachable s \<Longrightarrow> reachable (key_down s)"
| left: "reachable s \<Longrightarrow> reachable (key_left s)"
| right: "reachable s \<Longrightarrow> reachable (key_right s)"
| paged_up: "reachable s \<Longrightarrow> reachable (page_up rows s)"
| paged_down: "reachable s \<Longrightarrow> reachable (page_down rows s)"
| prompted: "reachable s \<Longrightarrow> prompt_search entered spare s = Inr s' \<Longrightarrow> reachable s'"
| searched: "reachable s \<Longrightarrow> search_forward spare s = Inr s' \<Longrightarrow> reachable s'"
| drawn: "reachable s \<Longrightarrow> reachable (draw_screen rows cols s)"

text \<open>
  What every reachable state satisfies: the cursor of the live state lies inside the
  document, every stored snapshot has its lines and its cursor inside them, and the two
  stacks together hold at most \<open>UNDO_DEPTH\<close> snapshots.
\<close>

definition snap_ok :: "UndoSnapshot \<Rightarrow> bool" where
  "snap_ok sn =
     (case snap_lines sn of
        None \<Rightarrow> False
      | Some ls \<Rightarrow>
          0 \<le> snap_cur_y sn \<and> snap_cur_y sn < int (length ls) \<and>
          0 \<le> snap_cur_x sn \<and> snap_cur_x sn \<le> int (length (ls ! nat (snap_cur_y sn))))"

definition state_ok :: "editor \<Rightarrow> bool" where
  "state_ok s =
     (cursor_ok s \<and> list_all snap_ok (undo_stack s) \<and> list_all snap_ok (redo_stack s) \<and>
      undo_count s + redo_count s \<le> UNDO_DEPTH)"

section \<open>Facts about the snapshot stacks\<close>

lemma push_undo_live:
  "lines (push_undo ok s) = lines s" "cur_x (push_undo ok s) = cur_x s"
  "cur_y (push_undo ok s) = cur_y s" "top_line (push_undo ok s) = top_line s"
  "bell (push_undo ok s) = bell s" "num_lines (push_undo ok s) = num_lines s"
  by (simp_all add: push_undo_def Let_def num_lines_def)

lemma capture_push_undo: "capture (push_undo ok s) = capture s"
  by (simp add: capture_def push_undo_live)

lemma capture_sel:
  "snap_lines (capture s) = Some (lines s)" "snap_cur_x (capture s) = cur_x s"
  "snap_cur_y (capture s) = cur_y s" "snap_top_line (capture s) = top_line s"
  by (simp_all add: capture_def)

lemma same_live_capture: "same_live s t \<longleftrightarrow> capture s = capture t"
  by (auto simp: same_live_def capture_def)

lemma same_live_refl: "same_live s s"
  by (simp add: same_live_def)

lemma same_live_push_undo: "same_live (push_undo ok s) s"
  by (simp add: same_live_def push_undo_live)

lemma push_undo_True_stacks:
  "undo_stack (push_undo True s) =
     (if undo_count s = UNDO_DEPTH then tl (undo_stack s) else undo_stack s) @ [capture s]"
  "redo_stack (push_undo True s) = []"
  by (simp_all add: push_undo_def Let_def)

lemma push_undo_False_stacks:
  "undo_stack (push_undo False s) =
     (if undo_count s = UNDO_DEPTH then tl (undo_stack s) else undo_stack s)"
  "redo_stack (push_undo False s) = redo_stack s"
  by (simp_all add: push_undo_def Let_def)

lemma newline_stacks:
  "undo_stack (newline ok mem s) = undo_stack (push_undo ok s)"
  "redo_stack (newline ok mem s) = redo_stack (push_undo ok s)"
  by (simp_all add: newline_def Let_def)

lemma backspace_stacks:
  "undo_stack (backspace ok s) = undo_stack (push_undo ok s)"
  "redo_stack (backspace ok s) = redo_stack (push_undo ok s)"
  by (simp_all add: backspace_def Let_def)

lemma insert_char_stacks:
  "undo_stack (insert_char ok ok' mem c cols s) =
     (if cur_x s \<ge> cols - 1 then undo_stack (push_undo ok' (push_undo ok s))
      else undo_stack (push_undo ok s))"
  "redo_stack (insert_char ok ok' mem c cols s) =
     (if cur_x s \<ge> cols - 1 then redo_stack (push_undo ok' (push_undo ok s))
      else redo_stack (push_undo ok s))"
  by (simp_all add: insert_char_def Let_def newline_stacks push_undo_live)

text \<open>
  A successful \<open>push_undo\<close> leaves the captured state on top of the undo stack and the
  redo stack empty, and a failed one after it keeps both: the eviction of a full stack
  drops the oldest slot, never the newest.
\<close>

lemma push_undo_top:
  "undo_stack (push_undo True s) \<noteq> [] \<and> last (undo_stack (push_undo True s)) = capture s"
  by (simp add: push_undo_True_stacks)

lemma push_undo_keeps_top:
  assumes "undo_stack s \<noteq> []"
  shows "undo_stack (push_undo ok s) \<noteq> [] \<and>
         last (undo_stack (push_undo ok s)) = (if ok then capture s else last (undo_stack s))"
proof (cases ok)
  case True
  then show ?thesis by (simp add: push_undo_True_stacks)
next
  case False
  show ?thesis
  proof (cases "undo_count s = UNDO_DEPTH")
    case True
    then have "length (undo_stack s) = 32"
      by (simp add: undo_count_def UNDO_DEPTH_def)
    then obtain a b st where "undo_stack s = a # b # st"
      by (cases "undo_stack s"; cases "tl (undo_stack s)") auto
    with True \<open>\<not> ok\<close> show ?thesis
      by (simp add: push_undo_False_stacks)
  next
    case no: False
    with assms False show ?thesis
      by (simp add: push_undo_False_stacks)
  qed
qed

lemma push_undo_keeps_redo_empty:
  "redo_stack s = [] \<Longrightarrow> redo_stack (push_undo ok s) = []"
  by (cases ok) (simp_all add: push_undo_True_stacks push_undo_False_stacks)

lemma mutate_top:
  assumes "captured ok ok' X s"
  shows "undo_stack (mutate ok ok' mem X s) \<noteq> [] \<and>
         last (undo_stack (mutate ok ok' mem X s)) = capture s"
proof (cases X)
  case (Insert_char c cols)
  show ?thesis
  proof (cases "cur_x s \<ge> cols - 1")
    case wrap: True
    show ?thesis
    proof (cases ok)
      case True
      from push_undo_keeps_top [of "push_undo True s" ok'] push_undo_top [of s]
      show ?thesis
        using Insert_char wrap True
        by (simp add: insert_char_stacks capture_push_undo)
    next
      case False
      with assms Insert_char wrap have "ok'" by simp
      with Insert_char wrap show ?thesis
        by (simp add: insert_char_stacks push_undo_top capture_push_undo)
    qed
  next
    case False
    with assms Insert_char show ?thesis
      by (simp add: insert_char_stacks push_undo_top)
  qed
next
  case Backspace
  with assms show ?thesis by (simp add: backspace_stacks push_undo_top)
next
  case Newline
  with assms show ?thesis by (simp add: newline_stacks push_undo_top)
qed

lemma mutate_redo_empty:
  assumes "captured ok ok' X s"
  shows "redo_stack (mutate ok ok' mem X s) = []"
proof (cases X)
  case (Insert_char c cols)
  show ?thesis
  proof (cases ok)
    case True
    with Insert_char show ?thesis
      by (simp add: insert_char_stacks push_undo_True_stacks push_undo_keeps_redo_empty)
  next
    case False
    with assms Insert_char have "cur_x s \<ge> cols - 1" "ok'" by simp_all
    with Insert_char show ?thesis
      by (simp add: insert_char_stacks push_undo_True_stacks)
  qed
next
  case Backspace
  with assms show ?thesis by (simp add: backspace_stacks push_undo_True_stacks)
next
  case Newline
  with assms show ?thesis by (simp add: newline_stacks push_undo_True_stacks)
qed

lemma do_undo_top:
  assumes "undo_stack s \<noteq> []" and "snap_lines (last (undo_stack s)) = Some ls"
  shows "do_undo ok s =
           Inr ((restore ls (last (undo_stack s)) s)
                  \<lparr>undo_stack := butlast (undo_stack s),
                   redo_stack := save_on ok (redo_stack s) s\<rparr>)"
  using assms by (simp add: do_undo_def undo_count_def Let_def)

lemma do_redo_top:
  assumes "redo_stack s \<noteq> []" and "snap_lines (last (redo_stack s)) = Some ls"
  shows "do_redo ok s =
           Inr ((restore ls (last (redo_stack s)) s)
                  \<lparr>redo_stack := butlast (redo_stack s),
                   undo_stack := save_on ok (undo_stack s) s\<rparr>)"
  using assms by (simp add: do_redo_def redo_count_def Let_def)

lemma do_undo_empty: "undo_stack s = [] \<Longrightarrow> do_undo ok s = Inr (beep s)"
  by (simp add: do_undo_def undo_count_def)

lemma do_redo_empty: "redo_stack s = [] \<Longrightarrow> do_redo ok s = Inr (beep s)"
  by (simp add: do_redo_def redo_count_def)

lemma do_undo_captured:
  assumes "undo_stack t \<noteq> []" and "last (undo_stack t) = capture s"
  shows "\<exists>s'. do_undo ok t = Inr s' \<and> same_live s' s"
  using do_undo_top [OF assms(1), of "lines s" ok] assms(2)
  by (simp add: capture_sel same_live_def restore_def)

lemma undo_after_mutate:
  assumes "captured ok ok' X s"
  shows "\<exists>s'. do_undo a (mutate ok ok' mem X s) = Inr s' \<and> same_live s' s"
  using mutate_top [OF assms, of mem] by (blast intro: do_undo_captured)

section \<open>Example states\<close>

text \<open>
  The state after typing \<open>x\<close> into the fresh document \<open>ab\<close> with every allocation
  succeeding, and after undoing that.
\<close>

lemma typed_x:
  "insert_char True True True CHR ''x'' 80 (editor_init [''ab'']) =
     \<lparr>lines = [''xab''], cur_x = 1, cur_y = 0, top_line = 0,
      undo_stack =
        [\<lparr>snap_lines = Some [''ab''], snap_cur_x = 0, snap_cur_y = 0, snap_top_line = 0\<rparr>],
      redo_stack = [], search_query = [], bell = 0\<rparr>"
  by (simp add: insert_char_def push_undo_def Let_def editor_init_def MAX_COL_def
        undo_count_def UNDO_DEPTH_def capture_def)

lemma undone_x:
  "do_undo True (insert_char True True True CHR ''x'' 80 (editor_init [''ab''])) =
     Inr \<lparr>lines = [''ab''], cur_x = 0, cur_y = 0, top_line = 0, undo_stack = [],
          redo_stack =
            [\<lparr>snap_lines = Some [''xab''], snap_cur_x = 1, snap_cur_y = 0, snap_top_line = 0\<rparr>],
          search_query = [], bell = 0\<rparr>"
  by (simp add: typed_x do_undo_def save_on_def undo_count_def UNDO_DEPTH_def
        restore_def capture_def Let_def)

lemma editor_init_sel:
  "lines (editor_init ls) = ls" "cur_x (editor_init ls) = 0" "cur_y (editor_init ls) = 0"
  "top_line (editor_init ls) = 0" "undo_stack (editor_init ls) = []"
  "redo_stack (editor_init ls) = []" "bell (editor_init ls) = 0"
  by (simp_all add: editor_init_def)

section \<open>Undo after a single edit\<close>

text \<open>
  Against claim C1 as stated (\<open>do_undo\<close> right after any single edit restores the
  state before it, when the undo stack was not full): in the document \<open>ab\<close> with the
  cursor at column 1 and an empty undo stack, a \<open>backspace\<close> whose \<open>push_undo\<close> fails
  to allocate still deletes the \<open>a\<close>; no snapshot was recorded, so \<open>do_undo\<close> only
  rings the bell and the document stays \<open>b\<close>.
\<close>

theorem undo_after_failed_capture:
  "cursor_ok ((editor_init [''ab''])\<lparr>cur_x := 1\<rparr>) \<and>
   undo_count ((editor_init [''ab''])\<lparr>cur_x := 1\<rparr>) < UNDO_DEPTH \<and>
   lines ((editor_init [''ab''])\<lparr>cur_x := 1\<rparr>) = [''ab''] \<and>
   lines (mutate False True True Backspace ((editor_init [''ab''])\<lparr>cur_x := 1\<rparr>)) = [''b''] \<and>
   do_undo True (mutate False True True Backspace ((editor_init [''ab''])\<lparr>cur_x := 1\<rparr>)) =
     Inr (beep (mutate False True True Backspace ((editor_init [''ab''])\<lparr>cur_x := 1\<rparr>))) \<and>
   lines (beep (mutate False True True Backspace ((editor_init [''ab''])\<lparr>cur_x := 1\<rparr>))) = [''b'']"
  by (simp add: cursor_ok_def editor_init_def num_lines_def backspace_def push_undo_def Let_def
      undo_count_def UNDO_DEPTH_def do_undo_def beep_def)

text \<open>
  Claim C1, amended. For every editor state whose cursor lies inside the document and
  whose undo stack is not full, and for every single edit \<open>X\<close> among \<open>insert_char\<close>,
  \<open>backspace\<close> and \<open>newline\<close> during which \<open>push_undo\<close> recorded its snapshot,
  \<open>do_undo\<close> right after the edit gives back the document lines, the cursor column and
  row and the viewport top the edit started from. The outcomes of the other allocations
  (the edited buffers, the snapshot \<open>do_undo\<close> saves for redo) do not matter.
\<close>

theorem undo_restores_single_edit:
  assumes "cursor_ok s" and "undo_count s < UNDO_DEPTH" and "captured ok ok' X s"
  shows "\<exists>s'. do_undo a (mutate ok ok' mem X s) = Inr s' \<and>
           lines s' = lines s \<and> cur_x s' = cur_x s \<and> cur_y s' = cur_y s \<and>
           top_line s' = top_line s"
  using undo_after_mutate [OF assms(3), of a mem] by (simp add: same_live_def)

text \<open>
  At the document \<open>ab\<close> with the cursor between the two letters: typing \<open>x\<close> gives
  \<open>axb\<close>, and undoing gives \<open>ab\<close> and the cursor back.
\<close>

theorem undo_restores_single_edit_witness:
  "cursor_ok ((editor_init [''ab''])\<lparr>cur_x := 1\<rparr>) \<and>
   undo_count ((editor_init [''ab''])\<lparr>cur_x := 1\<rparr>) < UNDO_DEPTH \<and>
   captured True True (Insert_char CHR ''x'' 80) ((editor_init [''ab''])\<lparr>cur_x := 1\<rparr>) \<and>
   lines (mutate True True True (Insert_char CHR ''x'' 80) ((editor_init [''ab''])\<lparr>cur_x := 1\<rparr>))
     = [''axb''] \<and>
   (\<exists>s'. do_undo True
           (mutate True True True (Insert_char CHR ''x'' 80) ((editor_init [''ab''])\<lparr>cur_x := 1\<rparr>))
         = Inr s' \<and> lines s' = [''ab''] \<and> cur_x s' = 1 \<and> cur_y s' = 0)"
proof -
  let ?s = "(editor_init [''ab''])\<lparr>cur_x := 1\<rparr>"
  have ok: "cursor_ok ?s"
    by (simp add: cursor_ok_def editor_init_def num_lines_def)
  have room: "undo_count ?s < UNDO_DEPTH"
    by (simp add: undo_count_def editor_init_def UNDO_DEPTH_def)
  have cap: "captured True True (Insert_char CHR ''x'' 80) ?s"
    by simp
  have edit: "lines (mutate True True True (Insert_char CHR ''x'' 80) ?s) = [''axb'']"
    by (simp add: insert_char_def push_undo_def Let_def editor_init_def MAX_COL_def
        undo_count_def UNDO_DEPTH_def)
  from undo_restores_single_edit [OF ok room cap, of True True] ok room cap edit
  show ?thesis by (auto simp add: editor_init_sel)
qed

section \<open>Undo followed by redo\<close>

lemma save_on_room:
  "length st < UNDO_DEPTH \<Longrightarrow> save_on True st s = st @ [capture s]"
  "length st < UNDO_DEPTH \<Longrightarrow> save_on False st s = st"
  by (simp_all add: save_on_def)

lemma capture_stacks [simp]:
  "capture (s\<lparr>undo_stack := u\<rparr>) = capture s" "capture (s\<lparr>redo_stack := r\<rparr>) = capture s"
  by (simp_all add: capture_def)

lemma restore_stacks [simp]:
  "undo_stack (restore ls sn s) = undo_stack s" "redo_stack (restore ls sn s) = redo_stack s"
  by (simp_all add: restore_def)

lemma capture_restore: "snap_lines sn = Some ls \<Longrightarrow> capture (restore ls sn s) = sn"
  by (simp add: capture_def restore_def)

lemma restore_capture_live: "same_live (restore (lines s) (capture s) t) s"
  by (simp add: same_live_def restore_def capture_def)

lemma do_redo_do_undo:
  assumes "undo_stack s \<noteq> []" and "undo_count s \<le> UNDO_DEPTH" and "redo_count s < UNDO_DEPTH"
    and "snap_lines (last (undo_stack s)) = Some ls"
  shows "\<exists>u. do_undo True s = Inr u \<and> do_redo True u = Inr s \<and>
           (\<exists>t. do_redo False u = Inr t \<and> same_live t s)"
proof -
  let ?sn = "last (undo_stack s)"
  let ?u = "(restore ls ?sn s)
              \<lparr>undo_stack := butlast (undo_stack s), redo_stack := redo_stack s @ [capture s]\<rparr>"
  have u: "do_undo True s = Inr ?u"
    using do_undo_top [OF assms(1,4), of True] assms(3)
    by (simp add: save_on_room redo_count_def)
  have room: "length (butlast (undo_stack s)) < UNDO_DEPTH"
    using assms(1,2) by (cases "undo_stack s") (auto simp: undo_count_def)
  have top: "redo_stack ?u \<noteq> []" "snap_lines (last (redo_stack ?u)) = Some (lines s)"
    "last (redo_stack ?u) = capture s"
    by (simp_all add: capture_sel)
  have whole: "(restore (lines s) (capture s) ?u)\<lparr>redo_stack := redo_stack s,
             undo_stack := butlast (undo_stack s) @ [?sn]\<rparr> = s"
    using assms(1) by (simp add: restore_def capture_def)
  have "do_redo True ?u =
          Inr ((restore (lines s) (capture s) ?u)\<lparr>redo_stack := redo_stack s,
             undo_stack := butlast (undo_stack s) @ [?sn]\<rparr>)"
    using do_redo_top [OF top(1,2), of True] room
    by (simp add: top(3) save_on_room capture_restore [OF assms(4)])
  then have again: "do_redo True ?u = Inr s"
    by (simp only: whole)
  have "do_redo False ?u =
          Inr ((restore (lines s) (capture s) ?u)\<lparr>redo_stack := redo_stack s,
             undo_stack := butlast (undo_stack s)\<rparr>)"
    using do_redo_top [OF top(1,2), of False] room
    by (simp add: top(3) save_on_room)
  moreover have "same_live ((restore (lines s) (capture s) ?u)\<lparr>redo_stack := redo_stack s,
             undo_stack := butlast (undo_stack s)\<rparr>) s"
    by (simp add: same_live_def restore_def capture_def)
  ultimately show ?thesis
    using u again by blast
qed

text \<open>
  Against claim C2 as stated (\<open>do_undo\<close> then \<open>do_redo\<close> leaves the live state as it
  was, when no stack evicts): after typing \<open>x\<close> into \<open>ab\<close>, a \<open>do_undo\<close> whose
  allocation fails (line 96) saves nothing on the redo stack and still restores \<open>ab\<close>;
  the \<open>do_redo\<close> after it finds the redo stack empty and rings the bell. The document is
  \<open>ab\<close>, not \<open>xab\<close>; neither stack was full.
\<close>

theorem redo_after_unsaved_undo:
  "undo_count (insert_char True True True CHR ''x'' 80 (editor_init [''ab''])) \<noteq> 0 \<and>
   undo_count (insert_char True True True CHR ''x'' 80 (editor_init [''ab''])) \<le> UNDO_DEPTH \<and>
   redo_count (insert_char True True True CHR ''x'' 80 (editor_init [''ab''])) < UNDO_DEPTH \<and>
   lines (insert_char True True True CHR ''x'' 80 (editor_init [''ab''])) = [''xab''] \<and>
   do_undo False (insert_char True True True CHR ''x'' 80 (editor_init [''ab''])) =
     Inr (editor_init [''ab'']) \<and>
   do_redo True (editor_init [''ab'']) = Inr (beep (editor_init [''ab''])) \<and>
   lines (beep (editor_init [''ab''])) = [''ab'']"
  by (simp add: typed_x undo_count_def redo_count_def UNDO_DEPTH_def do_undo_def do_redo_def
      save_on_def restore_def Let_def)
    (simp add: editor_init_def beep_def)

text \<open>
  Claim C2, amended. For every editor state with a non-empty undo stack whose top
  snapshot has its lines, \<open>do_undo\<close> with a successful allocation followed at once by
  \<open>do_redo\<close> leaves the document lines, the cursor column and row and the viewport top
  as they were before the \<open>do_undo\<close>, provided neither stack evicts a snapshot: the redo
  stack has a free slot and the undo stack holds at most \<open>UNDO_DEPTH\<close> snapshots. When
  the allocation of \<open>do_redo\<close> succeeds too, the two stacks come back unchanged as well,
  so the whole state is the same.
\<close>

theorem undo_then_redo_roundtrip:
  assumes "undo_count s \<noteq> 0" and "undo_count s \<le> UNDO_DEPTH" and "redo_count s < UNDO_DEPTH"
    and "snap_lines (last (undo_stack s)) \<noteq> None"
  shows "\<exists>u. do_undo True s = Inr u \<and> do_redo True u = Inr s \<and>
           (\<exists>t. do_redo False u = Inr t \<and>
                lines t = lines s \<and> cur_x t = cur_x s \<and> cur_y t = cur_y s \<and>
                top_line t = top_line s)"
proof -
  from assms(4) obtain ls where "snap_lines (last (undo_stack s)) = Some ls"
    by blast
  moreover from assms(1) have "undo_stack s \<noteq> []"
    by (simp add: undo_count_def)
  ultimately show ?thesis
    using do_redo_do_undo [of s ls] assms(2,3) by (simp add: same_live_def)
qed

text \<open>
  After typing \<open>x\<close> into \<open>ab\<close>: undo gives \<open>ab\<close>, and redo gives \<open>xab\<close> with the
  cursor behind the \<open>x\<close> again.
\<close>

theorem undo_then_redo_roundtrip_witness:
  "undo_count (insert_char True True True CHR ''x'' 80 (editor_init [''ab''])) \<noteq> 0 \<and>
   undo_count (insert_char True True True CHR ''x'' 80 (editor_init [''ab''])) \<le> UNDO_DEPTH \<and>
   redo_count (insert_char True True True CHR ''x'' 80 (editor_init [''ab''])) < UNDO_DEPTH \<and>
   snap_lines (last (undo_stack (insert_char True True True CHR ''x'' 80 (editor_init [''ab'']))))
     = Some [''ab''] \<and>
   (\<exists>u. do_undo True (insert_char True True True CHR ''x'' 80 (editor_init [''ab''])) = Inr u \<and>
        lines u = [''ab''] \<and>
        (\<exists>t. do_redo False u = Inr t \<and> lines t = [''xab''] \<and> cur_x t = 1))"
proof -
  let ?s = "insert_char True True True CHR ''x'' 80 (editor_init [''ab''])"
  have a: "undo_count ?s \<noteq> 0" and b: "undo_count ?s \<le> UNDO_DEPTH"
    and c: "redo_count ?s < UNDO_DEPTH"
    and d: "snap_lines (last (undo_stack ?s)) = Some [''ab'']"
    by (simp_all add: typed_x undo_count_def redo_count_def UNDO_DEPTH_def)
  from d have d': "snap_lines (last (undo_stack ?s)) \<noteq> None" by simp
  have e: "lines ?s = [''xab'']" "cur_x ?s = 1"
    by (simp_all add: typed_x)
  from undo_then_redo_roundtrip [OF a b c d']
  obtain u t where u: "do_undo True ?s = Inr u" and t: "do_redo False u = Inr t"
    and live: "lines t = lines ?s" "cur_x t = cur_x ?s"
    by blast
  from u have "lines u = [''ab'']"
    by (auto simp add: undone_x)
  with u t live a b c d show ?thesis
    unfolding e by blast
qed

section \<open>A new edit clears the redo stack\<close>

text \<open>
  Against claim C3 as stated (every new mutating command clears the redo stack): after
  typing \<open>x\<close> into \<open>ab\<close> and undoing it, typing \<open>y\<close> with a \<open>push_undo\<close> whose
  allocation fails gives \<open>yab\<close> and keeps the redo stack, since \<open>push_undo\<close> returns
  at line 73 before it clears it. The \<open>do_redo\<close> after it rings no bell and restores the
  undone \<open>xab\<close>.
\<close>

theorem redo_survives_failed_capture:
  "do_undo True (mutate True True True (Insert_char CHR ''x'' 80) (editor_init [''ab''])) =
     Inr \<lparr>lines = [''ab''], cur_x = 0, cur_y = 0, top_line = 0, undo_stack = [],
          redo_stack =
            [\<lparr>snap_lines = Some [''xab''], snap_cur_x = 1, snap_cur_y = 0, snap_top_line = 0\<rparr>],
          search_query = [], bell = 0\<rparr> \<and>
   mutate False True True (Insert_char CHR ''y'' 80)
     \<lparr>lines = [''ab''], cur_x = 0, cur_y = 0, top_line = 0, undo_stack = [],
      redo_stack =
        [\<lparr>snap_lines = Some [''xab''], snap_cur_x = 1, snap_cur_y = 0, snap_top_line = 0\<rparr>],
      search_query = [], bell = 0\<rparr> =
     \<lparr>lines = [''yab''], cur_x = 1, cur_y = 0, top_line = 0, undo_stack = [],
      redo_stack =
        [\<lparr>snap_lines = Some [''xab''], snap_cur_x = 1, snap_cur_y = 0, snap_top_line = 0\<rparr>],
      search_query = [], bell = 0\<rparr> \<and>
   do_redo True
     \<lparr>lines = [''yab''], cur_x = 1, cur_y = 0, top_line = 0, undo_stack = [],
      redo_stack =
        [\<lparr>snap_lines = Some [''xab''], snap_cur_x = 1, snap_cur_y = 0, snap_top_line = 0\<rparr>],
      search_query = [], bell = 0\<rparr> =
     Inr \<lparr>lines = [''xab''], cur_x = 1, cur_y = 0, top_line = 0,
          undo_stack =
            [\<lparr>snap_lines = Some [''yab''], snap_cur_x = 1, snap_cur_y = 0, snap_top_line = 0\<rparr>],
          redo_stack = [], search_query = [], bell = 0\<rparr>"
  by (simp add: undone_x)
    (simp add: insert_char_def push_undo_def Let_def MAX_COL_def undo_count_def redo_count_def
      UNDO_DEPTH_def do_redo_def save_on_def restore_def capture_def)

text \<open>
  Claim C3, amended. After a \<open>push_undo\<close> whose allocation succeeds the redo stack is
  empty. For edits \<open>A\<close> and \<open>B\<close>: after \<open>mutate A\<close>, \<open>do_undo\<close> and a \<open>mutate B\<close>
  during which \<open>push_undo\<close> recorded its snapshot, the redo stack is empty, and the
  following \<open>do_redo\<close> only rings the bell: every variable is left as it was and the
  undone \<open>A\<close> is not restored.
\<close>

theorem redo_after_new_edit:
  assumes "cursor_ok s" and "do_undo a (mutate okA okA' memA A s) = Inr u"
    and "captured okB okB' B u"
  shows "redo_stack (push_undo True s) = [] \<and>
         redo_stack (mutate okB okB' memB B u) = [] \<and>
         do_redo r (mutate okB okB' memB B u) = Inr (beep (mutate okB okB' memB B u))"
  using mutate_redo_empty [OF assms(3), of memB]
  by (simp add: push_undo_True_stacks do_redo_empty)

text \<open>
  Typing \<open>x\<close> into \<open>ab\<close>, undoing it and pressing Enter gives an empty line above
  \<open>ab\<close>; redo then changes nothing but the bell count.
\<close>

theorem redo_after_new_edit_witness:
  "cursor_ok (editor_init [''ab'']) \<and>
   (\<exists>u. do_undo True (mutate True True True (Insert_char CHR ''x'' 80) (editor_init [''ab''])) = Inr u \<and>
        captured True True Newline u \<and>
        lines (mutate True True True Newline u) = ['''', ''ab''] \<and>
        do_redo True (mutate True True True Newline u) = Inr (beep (mutate True True True Newline u)))"
proof -
  let ?u = "\<lparr>lines = [''ab''], cur_x = 0, cur_y = 0, top_line = 0, undo_stack = [],
          redo_stack =
            [\<lparr>snap_lines = Some [''xab''], snap_cur_x = 1, snap_cur_y = 0, snap_top_line = 0\<rparr>],
          search_query = [], bell = 0\<rparr>"
  have ok: "cursor_ok (editor_init [''ab''])"
    by (simp add: cursor_ok_def editor_init_def num_lines_def)
  have u: "do_undo True (mutate True True True (Insert_char CHR ''x'' 80) (editor_init [''ab'']))
             = Inr ?u"
    by (simp add: undone_x)
  have cap: "captured True True Newline ?u"
    by simp
  have split: "lines (mutate True True True Newline ?u) = ['''', ''ab'']"
    by (simp add: newline_def push_undo_def Let_def num_lines_def MAX_LINES_def)
  from redo_after_new_edit [OF ok u cap, of True True] ok u cap split
  show ?thesis by blast
qed

section \<open>What the editing commands do to the document\<close>

lemma newline_refused:
  "num_lines s + 1 \<ge> MAX_LINES \<Longrightarrow> newline ok mem s = push_undo ok s"
  by (simp add: newline_def Let_def push_undo_live)

lemma newline_no_memory: "newline ok False s = push_undo ok s"
  by (simp add: newline_def Let_def)

lemma newline_split:
  assumes "num_lines s + 1 < MAX_LINES"
  shows "lines (newline ok True s) =
           take (nat (cur_y s)) (lines s) @
           [take (nat (cur_x s)) (lines s ! nat (cur_y s)),
            drop (nat (cur_x s)) (lines s ! nat (cur_y s))] @
           drop (Suc (nat (cur_y s))) (lines s)"
    and "cur_y (newline ok True s) = cur_y s + 1" and "cur_x (newline ok True s) = 0"
    and "top_line (newline ok True s) = top_line s"
  using assms by (simp_all add: newline_def Let_def push_undo_live)

lemma length_split:
  "y < length ls \<Longrightarrow> length (take y ls @ [a, b] @ drop (Suc y) ls) = Suc (length ls)"
  by (simp add: min_def)

lemma length_merge:
  "0 < y \<Longrightarrow> y < length ls \<Longrightarrow> length (take (y - 1) ls @ [a] @ drop (Suc y) ls) = length ls - 1"
  by (simp add: min_def) arith

lemma cursor_row: "cursor_ok s \<Longrightarrow> nat (cur_y s) < length (lines s)"
  by (auto simp: cursor_ok_def num_lines_def)

lemma newline_num_lines:
  assumes "cursor_ok s" "num_lines s + 1 < MAX_LINES"
  shows "num_lines (newline ok True s) = num_lines s + 1"
  using length_split [OF cursor_row [OF assms(1)]]
  by (simp add: num_lines_def newline_split(1) [OF assms(2)])

lemma insert_char_wrap:
  "cur_x s \<ge> cols - 1 \<Longrightarrow>
   insert_char ok ok' mem c cols s = newline ok' mem (push_undo ok s)"
  by (simp add: insert_char_def Let_def push_undo_live)

lemma insert_char_refused:
  "cur_x s < cols - 1 \<Longrightarrow> int (length (lines s ! nat (cur_y s))) + 2 \<ge> MAX_COL \<Longrightarrow>
   insert_char ok ok' mem c cols s = push_undo ok s"
  by (simp add: insert_char_def Let_def push_undo_live)

lemma insert_char_no_memory:
  "cur_x s < cols - 1 \<Longrightarrow> insert_char ok ok' False c cols s = push_undo ok s"
  by (simp add: insert_char_def Let_def push_undo_live)

lemma insert_char_inserts:
  assumes "cur_x s < cols - 1" "int (length (lines s ! nat (cur_y s))) + 2 < MAX_COL"
  shows "lines (insert_char ok ok' True c cols s) =
           (lines s)[nat (cur_y s) :=
              take (nat (cur_x s)) (lines s ! nat (cur_y s)) @ [c] @
              drop (nat (cur_x s)) (lines s ! nat (cur_y s))]"
    and "cur_x (insert_char ok ok' True c cols s) = cur_x s + 1"
    and "cur_y (insert_char ok ok' True c cols s) = cur_y s"
    and "top_line (insert_char ok ok' True c cols s) = top_line s"
  using assms by (simp_all add: insert_char_def Let_def push_undo_live)

lemma insert_char_num_lines:
  "cur_x s < cols - 1 \<Longrightarrow> num_lines (insert_char ok ok' mem c cols s) = num_lines s"
  by (simp add: insert_char_def Let_def push_undo_live num_lines_def)

lemma backspace_origin:
  "cur_x s = 0 \<Longrightarrow> cur_y s = 0 \<Longrightarrow> backspace ok s = push_undo ok s"
  by (simp add: backspace_def Let_def push_undo_live)

lemma backspace_merge_refused:
  "cur_x s = 0 \<Longrightarrow> cur_y s > 0 \<Longrightarrow>
   int (length (lines s ! (nat (cur_y s) - 1))) + int (length (lines s ! nat (cur_y s))) + 1
     \<ge> MAX_COL \<Longrightarrow>
   backspace ok s = push_undo ok s"
  by (simp add: backspace_def Let_def push_undo_live)

lemma backspace_merge:
  assumes "cur_x s = 0" "cur_y s > 0"
    "int (length (lines s ! (nat (cur_y s) - 1))) + int (length (lines s ! nat (cur_y s))) + 1
       < MAX_COL"
  shows "lines (backspace ok s) =
           take (nat (cur_y s) - 1) (lines s) @
           [lines s ! (nat (cur_y s) - 1) @ lines s ! nat (cur_y s)] @
           drop (Suc (nat (cur_y s))) (lines s)"
    and "cur_y (backspace ok s) = cur_y s - 1"
    and "cur_x (backspace ok s) = int (length (lines s ! (nat (cur_y s) - 1)))"
    and "top_line (backspace ok s) = top_line s"
  using assms by (simp_all add: backspace_def Let_def push_undo_live)

lemma backspace_merge_num_lines:
  assumes "cursor_ok s" "cur_x s = 0" "cur_y s > 0"
    "int (length (lines s ! (nat (cur_y s) - 1))) + int (length (lines s ! nat (cur_y s))) + 1
       < MAX_COL"
  shows "num_lines (backspace ok s) = num_lines s - 1"
proof -
  have "0 < nat (cur_y s)" using assms(3) by simp
  from length_merge [OF this cursor_row [OF assms(1)]] cursor_row [OF assms(1)]
  show ?thesis
    by (simp add: num_lines_def backspace_merge(1) [OF assms(2-4)])
qed

lemma backspace_delete:
  assumes "cur_x s > 0"
  shows "lines (backspace ok s) =
           (lines s)[nat (cur_y s) :=
              take (nat (cur_x s) - 1) (lines s ! nat (cur_y s)) @
              drop (nat (cur_x s)) (lines s ! nat (cur_y s))]"
    and "cur_x (backspace ok s) = cur_x s - 1"
    and "cur_y (backspace ok s) = cur_y s"
    and "top_line (backspace ok s) = top_line s"
  using assms by (simp_all add: backspace_def Let_def push_undo_live)

section \<open>The live result of an edit does not depend on the stacks\<close>

lemma newline_live_only:
  "same_live s t \<Longrightarrow> same_live (newline ok mem s) (newline ok' mem t)"
  by (simp add: same_live_def newline_def Let_def push_undo_live num_lines_def)

lemma backspace_live_only:
  "same_live s t \<Longrightarrow> same_live (backspace ok s) (backspace ok' t)"
  by (simp add: same_live_def backspace_def Let_def push_undo_live)

lemma insert_char_live_only:
  "same_live s t \<Longrightarrow>
   same_live (insert_char ok1 ok2 mem c cols s) (insert_char ok3 ok4 mem c cols t)"
  by (simp add: same_live_def insert_char_def newline_def Let_def push_undo_live num_lines_def)

lemma concat_split:
  assumes "y < length ls"
  shows "concat (take y ls @ [take x (ls ! y), drop x (ls ! y)] @ drop (Suc y) ls) = concat ls"
proof -
  have "concat (take y ls @ [take x (ls ! y), drop x (ls ! y)] @ drop (Suc y) ls) =
          concat (take y ls @ (ls ! y) # drop (Suc y) ls)"
    by simp
  also have "take y ls @ (ls ! y) # drop (Suc y) ls = ls"
    using assms by (simp add: id_take_nth_drop [symmetric])
  finally show ?thesis .
qed

section \<open>Every edit captures first\<close>

text \<open>
  Against claim C9 as stated (every call pushes an undo snapshot and empties the redo
  stack): after typing \<open>x\<close> into \<open>ab\<close> and undoing it, the cursor is at row 0 column 0,
  the undo stack is empty and the redo stack holds one snapshot. A \<open>backspace\<close> there
  whose \<open>push_undo\<close> fails to allocate returns the state as it was: no undo slot is
  taken and the redo history is kept.
\<close>

theorem failed_capture_takes_no_slot:
  "do_undo True (insert_char True True True CHR ''x'' 80 (editor_init [''ab''])) =
     Inr \<lparr>lines = [''ab''], cur_x = 0, cur_y = 0, top_line = 0, undo_stack = [],
          redo_stack =
            [\<lparr>snap_lines = Some [''xab''], snap_cur_x = 1, snap_cur_y = 0, snap_top_line = 0\<rparr>],
          search_query = [], bell = 0\<rparr> \<and>
   backspace False
     \<lparr>lines = [''ab''], cur_x = 0, cur_y = 0, top_line = 0, undo_stack = [],
      redo_stack =
        [\<lparr>snap_lines = Some [''xab''], snap_cur_x = 1, snap_cur_y = 0, snap_top_line = 0\<rparr>],
      search_query = [], bell = 0\<rparr> =
     \<lparr>lines = [''ab''], cur_x = 0, cur_y = 0, top_line = 0, undo_stack = [],
      redo_stack =
        [\<lparr>snap_lines = Some [''xab''], snap_cur_x = 1, snap_cur_y = 0, snap_top_line = 0\<rparr>],
      search_query = [], bell = 0\<rparr>"
  by (simp add: undone_x)
    (simp add: backspace_def push_undo_def Let_def undo_count_def UNDO_DEPTH_def)

text \<open>
  Claim C9, amended. Every call of \<open>insert_char\<close>, \<open>backspace\<close> or \<open>newline\<close> calls
  \<open>push_undo\<close> before it checks whether the edit can take effect. Whenever
  \<open>push_undo\<close> records its snapshot, the call leaves the redo stack empty and the state
  it started from on top of the undo stack, whether or not the edit takes effect. The
  edits that are refused (\<open>insert_char\<close> at the line-length cap, \<open>backspace\<close> at row 0
  column 0, the merge at the combined-length cap, \<open>newline\<close> at the line-count cap)
  return exactly what \<open>push_undo\<close> returns: after a successful allocation the state with
  the redo stack emptied and one more undo slot taken, the oldest snapshot dropped when
  the stack was full.
\<close>

theorem edits_capture_before_checking:
  assumes "cursor_ok s"
  shows "(captured ok ok' X s \<longrightarrow>
            redo_stack (mutate ok ok' mem X s) = [] \<and> undo_stack (mutate ok ok' mem X s) \<noteq> [] \<and>
            last (undo_stack (mutate ok ok' mem X s)) = capture s) \<and>
         (cur_x s < cols - 1 \<and> int (length (lines s ! nat (cur_y s))) + 2 \<ge> MAX_COL \<longrightarrow>
            insert_char ok ok' mem c cols s = push_undo ok s) \<and>
         (cur_x s = 0 \<and> cur_y s = 0 \<longrightarrow> backspace ok s = push_undo ok s) \<and>
         (cur_x s = 0 \<and> cur_y s > 0 \<and>
          int (length (lines s ! (nat (cur_y s) - 1))) + int (length (lines s ! nat (cur_y s))) + 1
            \<ge> MAX_COL \<longrightarrow> backspace ok s = push_undo ok s) \<and>
         (num_lines s + 1 \<ge> MAX_LINES \<longrightarrow> newline ok mem s = push_undo ok s) \<and>
         push_undo True s =
           s\<lparr>undo_stack :=
               (if undo_count s = UNDO_DEPTH then tl (undo_stack s) else undo_stack s) @ [capture s],
             redo_stack := []\<rparr>"
  by (simp add: mutate_top mutate_redo_empty insert_char_refused backspace_origin
      backspace_merge_refused newline_refused)
    (simp add: push_undo_def Let_def)

text \<open>
  After typing \<open>x\<close> into \<open>ab\<close> and undoing it, the cursor is at row 0 column 0 and the
  redo stack holds one snapshot. Backspace there, with a successful capture, changes no
  line, yet it empties the redo stack and takes an undo slot. The other three refusals
  take an undo slot as well: typing into a line of 4094 characters, Enter in a document of
  9999 lines, and Backspace at the start of a line of 100 characters below one of 4000.
\<close>

theorem edits_capture_before_checking_witness:
  "cursor_ok \<lparr>lines = [''ab''], cur_x = 0, cur_y = 0, top_line = 0, undo_stack = [],
      redo_stack =
        [\<lparr>snap_lines = Some [''xab''], snap_cur_x = 1, snap_cur_y = 0, snap_top_line = 0\<rparr>],
      search_query = [], bell = 0\<rparr> \<and>
   captured True True Backspace \<lparr>lines = [''ab''], cur_x = 0, cur_y = 0, top_line = 0, undo_stack = [],
      redo_stack =
        [\<lparr>snap_lines = Some [''xab''], snap_cur_x = 1, snap_cur_y = 0, snap_top_line = 0\<rparr>],
      search_query = [], bell = 0\<rparr> \<and>
   backspace True \<lparr>lines = [''ab''], cur_x = 0, cur_y = 0, top_line = 0, undo_stack = [],
      redo_stack =
        [\<lparr>snap_lines = Some [''xab''], snap_cur_x = 1, snap_cur_y = 0, snap_top_line = 0\<rparr>],
      search_query = [], bell = 0\<rparr> =
     \<lparr>lines = [''ab''], cur_x = 0, cur_y = 0, top_line = 0,
      undo_stack =
        [\<lparr>snap_lines = Some [''ab''], snap_cur_x = 0, snap_cur_y = 0, snap_top_line = 0\<rparr>],
      redo_stack = [], search_query = [], bell = 0\<rparr> \<and>
   cursor_ok ((editor_init [replicate 4094 CHR ''a''])\<lparr>cur_x := 10\<rparr>) \<and>
   lines (insert_char True True True CHR ''b'' 80 ((editor_init [replicate 4094 CHR ''a''])\<lparr>cur_x := 10\<rparr>))
     = [replicate 4094 CHR ''a''] \<and>
   length (undo_stack
     (insert_char True True True CHR ''b'' 80 ((editor_init [replicate 4094 CHR ''a''])\<lparr>cur_x := 10\<rparr>)))
     = 1 \<and>
   cursor_ok (editor_init (replicate 9999 [])) \<and>
   lines (newline True True (editor_init (replicate 9999 []))) = replicate 9999 [] \<and>
   length (undo_stack (newline True True (editor_init (replicate 9999 [])))) = 1 \<and>
   cursor_ok ((editor_init [replicate 4000 CHR ''a'', replicate 100 CHR ''b''])\<lparr>cur_y := 1\<rparr>) \<and>
   lines (backspace True ((editor_init [replicate 4000 CHR ''a'', replicate 100 CHR ''b''])\<lparr>cur_y := 1\<rparr>))
     = [replicate 4000 CHR ''a'', replicate 100 CHR ''b''] \<and>
   length (undo_stack
     (backspace True ((editor_init [replicate 4000 CHR ''a'', replicate 100 CHR ''b''])\<lparr>cur_y := 1\<rparr>))) = 1"
proof -
  let ?s0 = "\<lparr>lines = [''ab''], cur_x = 0, cur_y = 0, top_line = 0, undo_stack = [],
      redo_stack =
        [\<lparr>snap_lines = Some [''xab''], snap_cur_x = 1, snap_cur_y = 0, snap_top_line = 0\<rparr>],
      search_query = [], bell = 0\<rparr>"
  let ?s1 = "(editor_init [replicate 4094 CHR ''a''])\<lparr>cur_x := 10\<rparr>"
  let ?s2 = "editor_init (replicate 9999 [])"
  let ?s3 = "(editor_init [replicate 4000 CHR ''a'', replicate 100 CHR ''b''])\<lparr>cur_y := 1\<rparr>"
  have ok0: "cursor_ok ?s0"
    by (simp add: cursor_ok_def num_lines_def)
  have ok1: "cursor_ok ?s1" and ok2: "cursor_ok ?s2" and ok3: "cursor_ok ?s3"
    by (simp_all add: cursor_ok_def editor_init_def num_lines_def)
  have cap0: "captured True True Backspace ?s0"
    by simp
  have h0: "cur_x ?s0 = 0 \<and> cur_y ?s0 = 0"
    by simp
  have h1: "cur_x ?s1 < 80 - 1 \<and> int (length (lines ?s1 ! nat (cur_y ?s1))) + 2 \<ge> MAX_COL"
    by (simp add: editor_init_def MAX_COL_def)
  have h2: "num_lines ?s2 + 1 \<ge> MAX_LINES"
    by (simp add: editor_init_def num_lines_def MAX_LINES_def)
  have h3: "cur_x ?s3 = 0 \<and> cur_y ?s3 > 0 \<and>
      int (length (lines ?s3 ! (nat (cur_y ?s3) - 1))) + int (length (lines ?s3 ! nat (cur_y ?s3))) + 1
        \<ge> MAX_COL"
    by (simp add: editor_init_def MAX_COL_def)
  have n0: "undo_count ?s0 \<noteq> UNDO_DEPTH"
    by (simp add: undo_count_def UNDO_DEPTH_def)
  have n: "undo_count ?s1 \<noteq> UNDO_DEPTH"
    "undo_count ?s2 \<noteq> UNDO_DEPTH" "undo_count ?s3 \<noteq> UNDO_DEPTH"
    by (simp_all add: editor_init_def undo_count_def UNDO_DEPTH_def)
  have r0: "backspace True ?s0 =
      ?s0\<lparr>undo_stack := undo_stack ?s0 @ [capture ?s0], redo_stack := []\<rparr>"
    using edits_capture_before_checking [OF ok0, of True True Backspace True 80 "CHR ''b''"] h0 n0
    by simp
  have r1: "insert_char True True True CHR ''b'' 80 ?s1 =
      ?s1\<lparr>undo_stack := undo_stack ?s1 @ [capture ?s1], redo_stack := []\<rparr>"
    using edits_capture_before_checking [OF ok1, of True True Backspace True 80 "CHR ''b''"] h1 n(1)
    by simp
  have r2: "newline True True ?s2 =
      ?s2\<lparr>undo_stack := undo_stack ?s2 @ [capture ?s2], redo_stack := []\<rparr>"
    using edits_capture_before_checking [OF ok2, of True True Backspace True 80 "CHR ''b''"] h2 n(2)
    by simp
  have r3: "backspace True ?s3 =
      ?s3\<lparr>undo_stack := undo_stack ?s3 @ [capture ?s3], redo_stack := []\<rparr>"
    using edits_capture_before_checking [OF ok3, of True True Backspace True 80 "CHR ''b''"] h3 n(3)
    by simp
  show ?thesis
    unfolding r0 r1 r2 r3 using ok0 ok1 ok2 ok3 cap0
    by (simp add: editor_init_sel) (simp add: capture_def)
qed

section \<open>Line counts\<close>

text \<open>
  Against claim C4 as stated (\<open>insert_char\<close> never changes the number of lines): on a
  screen 80 columns wide, with the cursor at column 79 of a line of 79 characters,
  \<open>insert_char\<close> turns a document of one line into one of two.
\<close>

theorem insert_char_wrap_adds_line:
  "cursor_ok ((editor_init [replicate 79 CHR ''a''])\<lparr>cur_x := 79\<rparr>) \<and>
   num_lines ((editor_init [replicate 79 CHR ''a''])\<lparr>cur_x := 79\<rparr>) = 1 \<and>
   num_lines (insert_char True True True CHR ''b'' 80
                ((editor_init [replicate 79 CHR ''a''])\<lparr>cur_x := 79\<rparr>)) = 2"
  by (simp add: cursor_ok_def editor_init_def num_lines_def insert_char_def newline_def
      push_undo_def Let_def MAX_LINES_def undo_count_def UNDO_DEPTH_def)

text \<open>
  Claim C4, amended. While the cursor column is below the screen width minus one,
  \<open>insert_char\<close> leaves the number of lines as it is, whatever its allocations do; a
  successful \<open>newline\<close>, one that is not refused at the line-count cap and gets its two
  buffers, adds exactly one line; a \<open>backspace\<close> at column 0 of a row above 0 whose
  merge is not refused at the length cap removes exactly one line. A \<open>newline\<close> that
  does not get its buffers leaves the number of lines as it is.
\<close>

theorem line_count_of_edits:
  assumes "cursor_ok s"
  shows "(cur_x s < cols - 1 \<longrightarrow> num_lines (insert_char ok ok' mem c cols s) = num_lines s) \<and>
         (num_lines s + 1 < MAX_LINES \<longrightarrow> num_lines (newline ok True s) = num_lines s + 1) \<and>
         num_lines (newline ok False s) = num_lines s \<and>
         (cur_x s = 0 \<and> cur_y s > 0 \<and>
          int (length (lines s ! (nat (cur_y s) - 1))) + int (length (lines s ! nat (cur_y s))) + 1
            < MAX_COL \<longrightarrow> num_lines (backspace ok s) = num_lines s - 1)"
  using assms
  by (simp add: insert_char_num_lines newline_num_lines backspace_merge_num_lines
      newline_no_memory push_undo_live)

text \<open>
  In the document \<open>ab\<close>, \<open>cd\<close> with the cursor at the start of the second line:
  typing keeps two lines, Enter gives three, Backspace gives one.
\<close>

theorem line_count_of_edits_witness:
  "cursor_ok ((editor_init [''ab'', ''cd''])\<lparr>cur_y := 1\<rparr>) \<and>
   num_lines ((editor_init [''ab'', ''cd''])\<lparr>cur_y := 1\<rparr>) = 2 \<and>
   num_lines (insert_char True True True CHR ''x'' 80 ((editor_init [''ab'', ''cd''])\<lparr>cur_y := 1\<rparr>))
     = 2 \<and>
   num_lines (newline True True ((editor_init [''ab'', ''cd''])\<lparr>cur_y := 1\<rparr>)) = 3 \<and>
   num_lines (backspace True ((editor_init [''ab'', ''cd''])\<lparr>cur_y := 1\<rparr>)) = 1"
proof -
  let ?s = "(editor_init [''ab'', ''cd''])\<lparr>cur_y := 1\<rparr>"
  have ok: "cursor_ok ?s"
    by (simp add: cursor_ok_def editor_init_def num_lines_def)
  have n: "num_lines ?s = 2"
    by (simp add: editor_init_def num_lines_def)
  have h: "cur_x ?s < 80 - 1" "num_lines ?s + 1 < MAX_LINES" "cur_x ?s = 0" "cur_y ?s > 0"
    "int (length (lines ?s ! (nat (cur_y ?s) - 1))) + int (length (lines ?s ! nat (cur_y ?s))) + 1
       < MAX_COL"
    by (simp_all add: editor_init_def num_lines_def MAX_LINES_def MAX_COL_def)
  from line_count_of_edits [OF ok, of 80 True True True "CHR ''x''"] h ok n
  show ?thesis by simp
qed

section \<open>Edits refused at a capacity limit\<close>

text \<open>
  Against claim C7 as stated (\<open>insert_char\<close> at the maximum line length leaves the line
  and the cursor unchanged): with the cursor at column 79 of a line of 4094 characters on
  a screen 80 columns wide, \<open>insert_char\<close> splits the line and moves the cursor to the
  start of the new second line.
\<close>

theorem insert_char_at_length_cap_splits:
  "cursor_ok ((editor_init [replicate 4094 CHR ''a''])\<lparr>cur_x := 79\<rparr>) \<and>
   int (length (lines ((editor_init [replicate 4094 CHR ''a''])\<lparr>cur_x := 79\<rparr>) ! 0)) + 2 \<ge> MAX_COL \<and>
   lines (insert_char True True True CHR ''b'' 80
            ((editor_init [replicate 4094 CHR ''a''])\<lparr>cur_x := 79\<rparr>)) =
     [replicate 79 CHR ''a'', replicate 4015 CHR ''a''] \<and>
   cur_y (insert_char True True True CHR ''b'' 80
            ((editor_init [replicate 4094 CHR ''a''])\<lparr>cur_x := 79\<rparr>)) = 1 \<and>
   cur_x (insert_char True True True CHR ''b'' 80
            ((editor_init [replicate 4094 CHR ''a''])\<lparr>cur_x := 79\<rparr>)) = 0"
  by (simp add: cursor_ok_def editor_init_def num_lines_def insert_char_def newline_def
      push_undo_def Let_def MAX_LINES_def MAX_COL_def undo_count_def UNDO_DEPTH_def)

text \<open>
  Claim C7, amended. \<open>insert_char\<close> on a line at the length cap, with the cursor column
  below the screen width minus one, leaves every line, the cursor and the viewport
  unchanged; so does \<open>newline\<close> when the line count is at its cap, and so does the
  \<open>backspace\<close> merge whose combined length reaches the cap. The outcomes of the
  allocations do not matter.
\<close>

theorem refused_edits_leave_document:
  assumes "cursor_ok s"
  shows "(cur_x s < cols - 1 \<and> int (length (lines s ! nat (cur_y s))) + 2 \<ge> MAX_COL \<longrightarrow>
            same_live (insert_char ok ok' mem c cols s) s) \<and>
         (num_lines s + 1 \<ge> MAX_LINES \<longrightarrow> same_live (newline ok mem s) s) \<and>
         (cur_x s = 0 \<and> cur_y s > 0 \<and>
          int (length (lines s ! (nat (cur_y s) - 1))) + int (length (lines s ! nat (cur_y s))) + 1
            \<ge> MAX_COL \<longrightarrow> same_live (backspace ok s) s)"
  by (simp add: insert_char_refused newline_refused backspace_merge_refused same_live_push_undo)

text \<open>
  One state for each of the three refusals: a line of 4094 characters with the cursor at
  column 10, a document of 9999 lines, and a line of 100 characters below one of 4000.
\<close>

theorem refused_edits_leave_document_witness:
  "cursor_ok ((editor_init [replicate 4094 CHR ''a''])\<lparr>cur_x := 10\<rparr>) \<and>
   lines (insert_char True True True CHR ''b'' 80 ((editor_init [replicate 4094 CHR ''a''])\<lparr>cur_x := 10\<rparr>))
     = [replicate 4094 CHR ''a''] \<and>
   cur_x (insert_char True True True CHR ''b'' 80 ((editor_init [replicate 4094 CHR ''a''])\<lparr>cur_x := 10\<rparr>))
     = 10 \<and>
   cursor_ok (editor_init (replicate 9999 [])) \<and>
   lines (newline True True (editor_init (replicate 9999 []))) = replicate 9999 [] \<and>
   cursor_ok ((editor_init [replicate 4000 CHR ''a'', replicate 100 CHR ''b''])\<lparr>cur_y := 1\<rparr>) \<and>
   lines (backspace True ((editor_init [replicate 4000 CHR ''a'', replicate 100 CHR ''b''])\<lparr>cur_y := 1\<rparr>))
     = [replicate 4000 CHR ''a'', replicate 100 CHR ''b''] \<and>
   cur_y (backspace True ((editor_init [replicate 4000 CHR ''a'', replicate 100 CHR ''b''])\<lparr>cur_y := 1\<rparr>))
     = 1"
proof -
  let ?s1 = "(editor_init [replicate 4094 CHR ''a''])\<lparr>cur_x := 10\<rparr>"
  let ?s2 = "editor_init (replicate 9999 [])"
  let ?s3 = "(editor_init [replicate 4000 CHR ''a'', replicate 100 CHR ''b''])\<lparr>cur_y := 1\<rparr>"
  have ok1: "cursor_ok ?s1" and ok2: "cursor_ok ?s2" and ok3: "cursor_ok ?s3"
    by (simp_all add: cursor_ok_def editor_init_def num_lines_def)
  have h1: "cur_x ?s1 < 80 - 1 \<and> int (length (lines ?s1 ! nat (cur_y ?s1))) + 2 \<ge> MAX_COL"
    by (simp add: editor_init_def MAX_COL_def)
  have h2: "num_lines ?s2 + 1 \<ge> MAX_LINES"
    by (simp add: editor_init_def num_lines_def MAX_LINES_def)
  have h3: "cur_x ?s3 = 0 \<and> cur_y ?s3 > 0 \<and>
      int (length (lines ?s3 ! (nat (cur_y ?s3) - 1))) + int (length (lines ?s3 ! nat (cur_y ?s3))) + 1
        \<ge> MAX_COL"
    by (simp add: editor_init_def MAX_COL_def)
  have v: "lines ?s1 = [replicate 4094 CHR ''a'']" "cur_x ?s1 = 10"
    "lines ?s2 = replicate 9999 []"
    "lines ?s3 = [replicate 4000 CHR ''a'', replicate 100 CHR ''b'']" "cur_y ?s3 = 1"
    by (simp_all add: editor_init_def)
  from refused_edits_leave_document [OF ok1, of 80 True True True "CHR ''b''"]
    refused_edits_leave_document [OF ok2, of 80 True True True "CHR ''b''"]
    refused_edits_leave_document [OF ok3, of 80 True True True "CHR ''b''"]
    h1 h2 h3 ok1 ok2 ok3
  show ?thesis unfolding same_live_def v by simp
qed

section \<open>A failed snapshot allocation\<close>

text \<open>
  Against claim C8 as stated (a failed capture stops the edit): when the allocation in
  \<open>push_undo\<close> fails, \<open>insert_char\<close> still turns \<open>ab\<close> into \<open>xab\<close>, the undo stack
  stays empty, and \<open>do_undo\<close> only rings the bell: it cannot bring \<open>ab\<close> back.
\<close>

theorem edit_proceeds_after_failed_capture:
  "cursor_ok (editor_init [''ab'']) \<and>
   lines (insert_char False True True CHR ''x'' 80 (editor_init [''ab''])) = [''xab''] \<and>
   undo_stack (insert_char False True True CHR ''x'' 80 (editor_init [''ab''])) = [] \<and>
   do_undo True (insert_char False True True CHR ''x'' 80 (editor_init [''ab''])) =
     Inr (beep (insert_char False True True CHR ''x'' 80 (editor_init [''ab''])))"
  by (simp add: cursor_ok_def editor_init_def num_lines_def insert_char_def
      push_undo_def Let_def MAX_COL_def undo_count_def UNDO_DEPTH_def do_undo_def)

text \<open>
  Claim C8, amended. When the allocation in \<open>push_undo\<close> fails, no snapshot is recorded:
  the undo stack gains no entry (its oldest entry is still dropped when it was full), the
  redo stack is kept, and the document, cursor and viewport are untouched. The calling
  \<open>insert_char\<close>, \<open>backspace\<close> or \<open>newline\<close> then edits the document exactly as it
  does after a successful capture.
\<close>

theorem failed_capture_records_nothing:
  assumes "cursor_ok s"
  shows "undo_stack (push_undo False s) =
           (if undo_count s = UNDO_DEPTH then tl (undo_stack s) else undo_stack s) \<and>
         redo_stack (push_undo False s) = redo_stack s \<and>
         same_live (push_undo False s) s \<and>
         same_live (insert_char False ok' mem c cols s) (insert_char True True mem c cols s) \<and>
         same_live (backspace False s) (backspace True s) \<and>
         same_live (newline False mem s) (newline True mem s)"
  by (simp add: push_undo_False_stacks same_live_push_undo insert_char_live_only
      backspace_live_only newline_live_only same_live_refl)

text \<open>
  In the fresh document \<open>ab\<close>: a failed \<open>push_undo\<close> leaves the undo stack empty, and
  typing \<open>x\<close> gives \<open>xab\<close> with the cursor at column 1, as it does when the capture
  succeeds.
\<close>

theorem failed_capture_records_nothing_witness:
  "cursor_ok (editor_init [''ab'']) \<and>
   undo_stack (push_undo False (editor_init [''ab''])) = [] \<and>
   lines (insert_char True True True CHR ''x'' 80 (editor_init [''ab''])) = [''xab''] \<and>
   lines (insert_char False False True CHR ''x'' 80 (editor_init [''ab''])) = [''xab''] \<and>
   cur_x (insert_char False False True CHR ''x'' 80 (editor_init [''ab''])) = 1"
proof -
  have ok: "cursor_ok (editor_init [''ab''])"
    by (simp add: cursor_ok_def editor_init_def num_lines_def)
  have e: "undo_count (editor_init [''ab'']) \<noteq> UNDO_DEPTH" "undo_stack (editor_init [''ab'']) = []"
    by (simp_all add: editor_init_def undo_count_def UNDO_DEPTH_def)
  from failed_capture_records_nothing [OF ok, of False True "CHR ''x''" 80] ok e
  show ?thesis by (simp add: same_live_def typed_x)
qed

section \<open>Typing at the screen width\<close>

text \<open>
  Against claim C10 as stated (\<open>insert_char\<close> at the screen width always splits the
  line): in a document of 9999 lines, with the cursor at column 79 on a screen 80 columns
  wide, \<open>insert_char\<close> calls \<open>newline\<close>, which refuses; no line is split.
\<close>

theorem insert_char_wrap_at_line_cap:
  "cursor_ok ((editor_init (replicate 79 CHR ''a'' # replicate 9998 []))\<lparr>cur_x := 79\<rparr>) \<and>
   cur_x ((editor_init (replicate 79 CHR ''a'' # replicate 9998 []))\<lparr>cur_x := 79\<rparr>) \<ge> 80 - 1 \<and>
   lines (insert_char True True True CHR ''b'' 80
            ((editor_init (replicate 79 CHR ''a'' # replicate 9998 []))\<lparr>cur_x := 79\<rparr>)) =
     replicate 79 CHR ''a'' # replicate 9998 [] \<and>
   cur_y (insert_char True True True CHR ''b'' 80
            ((editor_init (replicate 79 CHR ''a'' # replicate 9998 []))\<lparr>cur_x := 79\<rparr>)) = 0"
  by (simp add: cursor_ok_def editor_init_def num_lines_def insert_char_def newline_def
      push_undo_def Let_def MAX_LINES_def undo_count_def UNDO_DEPTH_def)

text \<open>
  Claim C10, amended. With the cursor column at least the screen width minus one,
  \<open>insert_char\<close> does what \<open>newline\<close> does and inserts nothing: when the line count is
  below its cap and \<open>newline\<close> gets its two buffers, the cursor's line is split at the
  cursor and the cursor moves to the start of the new line; at the cap, or when an
  allocation of \<open>newline\<close> fails, the document and the cursor stay as they are. In every
  case the typed character is dropped: the characters of the document, read line after
  line, are the same as before, so a character that was absent is absent afterwards.
\<close>

theorem insert_char_wrap_discards_char:
  assumes "cursor_ok s" and "cur_x s \<ge> cols - 1"
  shows "insert_char ok ok' mem c cols s = newline ok' mem (push_undo ok s) \<and>
         (num_lines s + 1 < MAX_LINES \<and> mem \<longrightarrow>
            lines (insert_char ok ok' mem c cols s) =
              take (nat (cur_y s)) (lines s) @
              [take (nat (cur_x s)) (lines s ! nat (cur_y s)),
               drop (nat (cur_x s)) (lines s ! nat (cur_y s))] @
              drop (Suc (nat (cur_y s))) (lines s) \<and>
            cur_y (insert_char ok ok' mem c cols s) = cur_y s + 1 \<and>
            cur_x (insert_char ok ok' mem c cols s) = 0) \<and>
         (num_lines s + 1 \<ge> MAX_LINES \<longrightarrow> same_live (insert_char ok ok' mem c cols s) s) \<and>
         (\<not> mem \<longrightarrow> same_live (insert_char ok ok' mem c cols s) s) \<and>
         concat (lines (insert_char ok ok' mem c cols s)) = concat (lines s) \<and>
         (c \<notin> set (concat (lines s)) \<longrightarrow>
            c \<notin> set (concat (lines (insert_char ok ok' mem c cols s))))"
proof -
  let ?p = "push_undo ok s"
  have w: "insert_char ok ok' mem c cols s = newline ok' mem ?p"
    using assms(2) by (rule insert_char_wrap)
  have split: "num_lines s + 1 < MAX_LINES \<Longrightarrow> mem \<Longrightarrow>
      lines (newline ok' mem ?p) =
        take (nat (cur_y s)) (lines s) @
        [take (nat (cur_x s)) (lines s ! nat (cur_y s)),
         drop (nat (cur_x s)) (lines s ! nat (cur_y s))] @
        drop (Suc (nat (cur_y s))) (lines s) \<and>
      cur_y (newline ok' mem ?p) = cur_y s + 1 \<and> cur_x (newline ok' mem ?p) = 0"
    using newline_split [of ?p ok'] by (simp add: push_undo_live)
  have refused: "num_lines s + 1 \<ge> MAX_LINES \<Longrightarrow> same_live (newline ok' mem ?p) s"
    using newline_refused [of ?p ok' mem] by (simp add: push_undo_live same_live_def)
  have starved: "\<not> mem \<Longrightarrow> same_live (newline ok' mem ?p) s"
    using newline_no_memory [of ok' ?p] by (simp add: push_undo_live same_live_def)
  have content: "concat (lines (newline ok' mem ?p)) = concat (lines s)"
  proof (cases "num_lines s + 1 < MAX_LINES \<and> mem")
    case True
    with split concat_split [OF cursor_row [OF assms(1)]] show ?thesis by simp
  next
    case False
    with refused starved have "same_live (newline ok' mem ?p) s" by fastforce
    then show ?thesis by (simp add: same_live_def)
  qed
  show ?thesis
    unfolding w using split refused starved content by simp
qed

text \<open>
  Typing \<open>b\<close> at column 79 of a line of 79 letters \<open>a\<close>, on a screen 80 columns wide,
  gives that line and an empty one; there is no \<open>b\<close> in the document. When \<open>newline\<close>
  gets no buffer, or with 9998 more lines below, the same key changes neither the
  document nor the cursor.
\<close>

theorem insert_char_wrap_discards_char_witness:
  "cursor_ok ((editor_init [replicate 79 CHR ''a''])\<lparr>cur_x := 79\<rparr>) \<and>
   cur_x ((editor_init [replicate 79 CHR ''a''])\<lparr>cur_x := 79\<rparr>) \<ge> 80 - 1 \<and>
   lines (insert_char True True True CHR ''b'' 80 ((editor_init [replicate 79 CHR ''a''])\<lparr>cur_x := 79\<rparr>))
     = [replicate 79 CHR ''a'', []] \<and>
   cur_y (insert_char True True True CHR ''b'' 80 ((editor_init [replicate 79 CHR ''a''])\<lparr>cur_x := 79\<rparr>))
     = 1 \<and>
   CHR ''b'' \<notin> set (concat (lines
     (insert_char True True True CHR ''b'' 80 ((editor_init [replicate 79 CHR ''a''])\<lparr>cur_x := 79\<rparr>)))) \<and>
   same_live
     (insert_char True True False CHR ''b'' 80 ((editor_init [replicate 79 CHR ''a''])\<lparr>cur_x := 79\<rparr>))
     ((editor_init [replicate 79 CHR ''a''])\<lparr>cur_x := 79\<rparr>) \<and>
   cursor_ok ((editor_init (replicate 79 CHR ''a'' # replicate 9998 []))\<lparr>cur_x := 79\<rparr>) \<and>
   cur_x ((editor_init (replicate 79 CHR ''a'' # replicate 9998 []))\<lparr>cur_x := 79\<rparr>) \<ge> 80 - 1 \<and>
   same_live
     (insert_char True True True CHR ''b'' 80
        ((editor_init (replicate 79 CHR ''a'' # replicate 9998 []))\<lparr>cur_x := 79\<rparr>))
     ((editor_init (replicate 79 CHR ''a'' # replicate 9998 []))\<lparr>cur_x := 79\<rparr>)"
proof -
  let ?s = "(editor_init [replicate 79 CHR ''a''])\<lparr>cur_x := 79\<rparr>"
  let ?t = "(editor_init (replicate 79 CHR ''a'' # replicate 9998 []))\<lparr>cur_x := 79\<rparr>"
  have ok: "cursor_ok ?s" and ok': "cursor_ok ?t"
    by (simp_all add: cursor_ok_def editor_init_def num_lines_def)
  have at: "cur_x ?s \<ge> 80 - 1" and at': "cur_x ?t \<ge> 80 - 1"
    by (simp_all add: editor_init_def)
  have h: "num_lines ?s + 1 < MAX_LINES" "CHR ''b'' \<notin> set (concat (lines ?s))"
    by (simp_all add: editor_init_def num_lines_def MAX_LINES_def)
  have h': "num_lines ?t + 1 \<ge> MAX_LINES"
    by (simp add: editor_init_def num_lines_def MAX_LINES_def)
  have v: "lines ?s = [replicate 79 CHR ''a'']" "cur_x ?s = 79" "cur_y ?s = 0"
    by (simp_all add: editor_init_def)
  have split: "lines (insert_char True True True CHR ''b'' 80 ?s) = [replicate 79 CHR ''a'', []] \<and>
      cur_y (insert_char True True True CHR ''b'' 80 ?s) = 1 \<and>
      CHR ''b'' \<notin> set (concat (lines (insert_char True True True CHR ''b'' 80 ?s)))"
    using insert_char_wrap_discards_char [OF ok at, of True True True "CHR ''b''", THEN conjunct2] h
    unfolding v by simp
  have starved: "same_live (insert_char True True False CHR ''b'' 80 ?s) ?s"
    using insert_char_wrap_discards_char [OF ok at, of True True False "CHR ''b''", THEN conjunct2]
    by simp
  have cap: "same_live (insert_char True True True CHR ''b'' 80 ?t) ?t"
    using insert_char_wrap_discards_char [OF ok' at', of True True True "CHR ''b''", THEN conjunct2] h'
    by simp
  from split starved cap ok ok' at at' show ?thesis by blast
qed

section \<open>The cursor stays inside the document\<close>

lemma cursor_ok_capture: "cursor_ok s \<longleftrightarrow> snap_ok (capture s)"
  by (simp add: cursor_ok_def snap_ok_def capture_def num_lines_def)

lemma cursor_ok_push_undo: "cursor_ok (push_undo ok s) = cursor_ok s"
  by (simp add: cursor_ok_capture capture_push_undo)

lemma list_all_tl: "list_all P xs \<Longrightarrow> list_all P (tl xs)"
  by (cases xs) simp_all

lemma list_all_butlast: "list_all P xs \<Longrightarrow> list_all P (butlast xs)"
  by (induction xs) simp_all

lemma list_all_last: "list_all P xs \<Longrightarrow> xs \<noteq> [] \<Longrightarrow> P (last xs)"
  by (induction xs) (auto split: if_splits)

lemma push_undo_counts:
  assumes "undo_count s + redo_count s \<le> UNDO_DEPTH"
  shows "undo_count (push_undo ok s) + redo_count (push_undo ok s) \<le> UNDO_DEPTH"
proof (cases ok)
  case True
  with assms show ?thesis
    by (auto simp: undo_count_def redo_count_def push_undo_True_stacks UNDO_DEPTH_def)
next
  case False
  with assms show ?thesis
    by (auto simp: undo_count_def redo_count_def push_undo_False_stacks)
qed

lemma state_ok_push_undo:
  assumes "state_ok s"
  shows "state_ok (push_undo ok s)"
proof -
  from assms have c: "cursor_ok s" and u: "list_all snap_ok (undo_stack s)"
    and r: "list_all snap_ok (redo_stack s)"
    and n: "undo_count s + redo_count s \<le> UNDO_DEPTH"
    by (simp_all add: state_ok_def)
  from c have "snap_ok (capture s)" by (simp add: cursor_ok_capture)
  with u r have "list_all snap_ok (undo_stack (push_undo ok s))"
    "list_all snap_ok (redo_stack (push_undo ok s))"
    by (cases ok; simp add: push_undo_True_stacks push_undo_False_stacks list_all_tl)+
  with c push_undo_counts [OF n, of ok] show ?thesis
    by (simp add: state_ok_def cursor_ok_push_undo)
qed

lemma cursor_ok_newline:
  assumes "cursor_ok s"
  shows "cursor_ok (newline ok mem s)"
proof (cases "num_lines s + 1 < MAX_LINES \<and> mem")
  case True
  then have room: "num_lines s + 1 < MAX_LINES" and mem by simp_all
  have y: "nat (cur_y s) < length (lines s)" by (rule cursor_row [OF assms])
  have row: "nat (cur_y s + 1) = Suc (nat (cur_y s))"
    using assms by (simp add: cursor_ok_def nat_add_distrib)
  from y assms show ?thesis
    unfolding \<open>mem\<close> [THEN eqTrueI]
    by (simp add: cursor_ok_def newline_split [OF room] num_lines_def row nth_append min_def)
next
  case False
  then have "newline ok mem s = push_undo ok s"
    by (cases mem) (simp_all add: newline_refused newline_no_memory)
  then show ?thesis
    using assms by (simp add: cursor_ok_push_undo)
qed

lemma cursor_ok_insert_char:
  assumes "cursor_ok s"
  shows "cursor_ok (insert_char ok ok' mem c cols s)"
proof (cases "cur_x s \<ge> cols - 1")
  case True
  then show ?thesis
    using assms by (simp add: insert_char_wrap cursor_ok_newline cursor_ok_push_undo)
next
  case False
  then have lt: "cur_x s < cols - 1" by simp
  show ?thesis
  proof (cases "int (length (lines s ! nat (cur_y s))) + 2 < MAX_COL \<and> mem")
    case True
    then have room: "int (length (lines s ! nat (cur_y s))) + 2 < MAX_COL" and mem by simp_all
    from assms cursor_row [OF assms] show ?thesis
      unfolding \<open>mem\<close> [THEN eqTrueI]
      by (simp add: cursor_ok_def insert_char_inserts [OF lt room] num_lines_def min_def)
  next
    case False
    with lt have "insert_char ok ok' mem c cols s = push_undo ok s"
      by (cases mem) (simp_all add: insert_char_refused insert_char_no_memory)
    then show ?thesis
      using assms by (simp add: cursor_ok_push_undo)
  qed
qed

lemma cursor_ok_backspace:
  assumes "cursor_ok s"
  shows "cursor_ok (backspace ok s)"
proof -
  have y: "nat (cur_y s) < length (lines s)" by (rule cursor_row [OF assms])
  consider (del) "cur_x s > 0"
    | (merge) "cur_x s = 0" "cur_y s > 0"
        "int (length (lines s ! (nat (cur_y s) - 1))) + int (length (lines s ! nat (cur_y s))) + 1
           < MAX_COL"
    | (refused) "cur_x s = 0" "cur_y s > 0"
        "int (length (lines s ! (nat (cur_y s) - 1))) + int (length (lines s ! nat (cur_y s))) + 1
           \<ge> MAX_COL"
    | (origin) "cur_x s = 0" "cur_y s = 0"
    using assms by (fastforce simp: cursor_ok_def)
  then show ?thesis
  proof cases
    case del
    from assms y del show ?thesis
      by (simp add: cursor_ok_def backspace_delete [OF del] num_lines_def min_def)
  next
    case merge
    have pos: "0 < nat (cur_y s)" using merge(2) by simp
    have row: "nat (cur_y s - 1) = nat (cur_y s) - 1"
      using merge(2) by (simp add: nat_diff_distrib)
    from assms y pos show ?thesis
      by (simp add: cursor_ok_def backspace_merge [OF merge] num_lines_def row nth_append min_def)
        linarith
  next
    case refused
    then show ?thesis
      using assms by (simp add: backspace_merge_refused cursor_ok_push_undo)
  next
    case origin
    then show ?thesis
      using assms by (simp add: backspace_origin cursor_ok_push_undo)
  qed
qed

lemma state_ok_newline: "state_ok s \<Longrightarrow> state_ok (newline ok mem s)"
  using state_ok_push_undo [of s ok] cursor_ok_newline [of s ok mem]
  by (simp add: state_ok_def newline_stacks undo_count_def redo_count_def)

lemma state_ok_backspace: "state_ok s \<Longrightarrow> state_ok (backspace ok s)"
  using state_ok_push_undo [of s ok] cursor_ok_backspace [of s ok]
  by (simp add: state_ok_def backspace_stacks undo_count_def redo_count_def)

lemma state_ok_insert_char: "state_ok s \<Longrightarrow> state_ok (insert_char ok ok' mem c cols s)"
  using state_ok_push_undo [of s ok] state_ok_push_undo [of "push_undo ok s" ok']
    cursor_ok_insert_char [of s ok ok' mem c cols]
  by (simp add: state_ok_def insert_char_stacks undo_count_def redo_count_def)

lemma cursor_ok_restore: "cursor_ok (restore ls sn s) \<longleftrightarrow> snap_ok (sn\<lparr>snap_lines := Some ls\<rparr>)"
  by (simp add: cursor_ok_def snap_ok_def restore_def num_lines_def)

lemma cursor_ok_stacks [simp]:
  "cursor_ok (s\<lparr>undo_stack := u\<rparr>) = cursor_ok s" "cursor_ok (s\<lparr>redo_stack := r\<rparr>) = cursor_ok s"
  "cursor_ok (beep s) = cursor_ok s"
  by (simp_all add: cursor_ok_def num_lines_def beep_def)

lemma state_ok_beep: "state_ok s \<Longrightarrow> state_ok (beep s)"
  by (simp add: state_ok_def) (simp add: beep_def undo_count_def redo_count_def)

lemma snap_ok_lines: "snap_ok sn \<Longrightarrow> \<exists>ls. snap_lines sn = Some ls"
  by (cases "snap_lines sn") (simp_all add: snap_ok_def)

text \<open>
  In a state of a run the stack that receives the saved state has room, and the slot that
  is restored has its lines: \<open>do_undo\<close> and \<open>do_redo\<close> end without a fault and keep
  the invariant, whatever their allocation does.
\<close>

lemma state_ok_do_undo:
  assumes "state_ok s"
  shows "\<exists>s'. do_undo ok s = Inr s' \<and> state_ok s'"
proof (cases "undo_stack s = []")
  case True
  then show ?thesis
    using assms by (simp add: do_undo_empty state_ok_beep)
next
  case False
  from assms have c: "snap_ok (capture s)" and u: "list_all snap_ok (undo_stack s)"
    and r: "list_all snap_ok (redo_stack s)"
    and n: "undo_count s + redo_count s \<le> UNDO_DEPTH"
    by (simp_all add: state_ok_def cursor_ok_capture)
  let ?sn = "last (undo_stack s)"
  from u False have top: "snap_ok ?sn" by (rule list_all_last)
  then obtain ls where ls: "snap_lines ?sn = Some ls" by (blast dest: snap_ok_lines)
  from top ls have live: "snap_ok (?sn\<lparr>snap_lines := Some ls\<rparr>)"
    by (simp add: snap_ok_def)
  from False n have room: "length (redo_stack s) < UNDO_DEPTH"
    by (cases "undo_stack s") (simp_all add: undo_count_def redo_count_def)
  have saved: "list_all snap_ok (save_on ok (redo_stack s) s)"
    "length (save_on ok (redo_stack s) s) \<le> Suc (length (redo_stack s))"
    using room r c by (cases ok; simp add: save_on_room)+
  from False have less: "Suc (length (butlast (undo_stack s))) = length (undo_stack s)"
    by (cases "undo_stack s") simp_all
  from n less saved(2)
  have count: "length (butlast (undo_stack s)) + length (save_on ok (redo_stack s) s)
                 \<le> UNDO_DEPTH"
    by (simp add: undo_count_def redo_count_def)
  have "state_ok ((restore ls ?sn s)\<lparr>undo_stack := butlast (undo_stack s),
                   redo_stack := save_on ok (redo_stack s) s\<rparr>)"
    using live u saved(1) count
    by (simp add: state_ok_def cursor_ok_restore list_all_butlast undo_count_def redo_count_def)
  with do_undo_top [OF False ls, of ok] show ?thesis by simp
qed

lemma state_ok_do_redo:
  assumes "state_ok s"
  shows "\<exists>s'. do_redo ok s = Inr s' \<and> state_ok s'"
proof (cases "redo_stack s = []")
  case True
  then show ?thesis
    using assms by (simp add: do_redo_empty state_ok_beep)
next
  case False
  from assms have c: "snap_ok (capture s)" and u: "list_all snap_ok (undo_stack s)"
    and r: "list_all snap_ok (redo_stack s)"
    and n: "undo_count s + redo_count s \<le> UNDO_DEPTH"
    by (simp_all add: state_ok_def cursor_ok_capture)
  let ?sn = "last (redo_stack s)"
  from r False have top: "snap_ok ?sn" by (rule list_all_last)
  then obtain ls where ls: "snap_lines ?sn = Some ls" by (blast dest: snap_ok_lines)
  from top ls have live: "snap_ok (?sn\<lparr>snap_lines := Some ls\<rparr>)"
    by (simp add: snap_ok_def)
  from False n have room: "length (undo_stack s) < UNDO_DEPTH"
    by (cases "redo_stack s") (simp_all add: undo_count_def redo_count_def)
  have saved: "list_all snap_ok (save_on ok (undo_stack s) s)"
    "length (save_on ok (undo_stack s) s) \<le> Suc (length (undo_stack s))"
    using room u c by (cases ok; simp add: save_on_room)+
  from False have less: "Suc (length (butlast (redo_stack s))) = length (redo_stack s)"
    by (cases "redo_stack s") simp_all
  from n less saved(2)
  have count: "length (save_on ok (undo_stack s) s) + length (butlast (redo_stack s))
                 \<le> UNDO_DEPTH"
    by (simp add: undo_count_def redo_count_def)
  have "state_ok ((restore ls ?sn s)\<lparr>redo_stack := butlast (redo_stack s),
                   undo_stack := save_on ok (undo_stack s) s\<rparr>)"
    using live r saved(1) count
    by (simp add: state_ok_def cursor_ok_restore list_all_butlast undo_count_def redo_count_def)
  with do_redo_top [OF False ls, of ok] show ?thesis by simp
qed

lemma state_ok_init: "ls \<noteq> [] \<Longrightarrow> state_ok (editor_init ls)"
  by (simp add: state_ok_def cursor_ok_def editor_init_def num_lines_def undo_count_def
      redo_count_def)

lemma state_ok_load_file: "state_ok (load_file f)"
  by (cases f) (simp_all add: load_file_def Let_def state_ok_init)

section \<open>Moving the cursor and searching keep it inside the document\<close>

lemma cursor_ok_I:
  "0 \<le> cur_y s \<Longrightarrow> nat (cur_y s) < length (lines s) \<Longrightarrow> 0 \<le> cur_x s \<Longrightarrow>
   cur_x s \<le> int (length (lines s ! nat (cur_y s))) \<Longrightarrow> cursor_ok s"
  by (simp add: cursor_ok_def num_lines_def)

lemma cursor_ok_clamp_x:
  "0 \<le> cur_y s \<Longrightarrow> cur_y s < num_lines s \<Longrightarrow> 0 \<le> cur_x s \<Longrightarrow> cursor_ok (clamp_x s)"
  by (simp add: cursor_ok_def clamp_x_def Let_def num_lines_def)

lemma clamp_x_stacks [simp]:
  "undo_stack (clamp_x s) = undo_stack s" "redo_stack (clamp_x s) = redo_stack s"
  by (simp_all add: clamp_x_def Let_def)

lemma cursor_ok_key_up: "cursor_ok s \<Longrightarrow> cursor_ok (key_up s)"
  by (auto simp: key_up_def intro!: cursor_ok_clamp_x) (auto simp: cursor_ok_def num_lines_def)

lemma cursor_ok_key_down: "cursor_ok s \<Longrightarrow> cursor_ok (key_down s)"
  by (auto simp: key_down_def intro!: cursor_ok_clamp_x) (auto simp: cursor_ok_def num_lines_def)

lemma cursor_ok_key_left: "cursor_ok s \<Longrightarrow> cursor_ok (key_left s)"
  by (auto simp: key_left_def cursor_ok_def num_lines_def)

lemma cursor_ok_key_right: "cursor_ok s \<Longrightarrow> cursor_ok (key_right s)"
  by (auto simp: key_right_def cursor_ok_def num_lines_def Let_def)

lemma cursor_ok_top_line [simp]: "cursor_ok (s\<lparr>top_line := t\<rparr>) = cursor_ok s"
  by (simp add: cursor_ok_def num_lines_def)

lemma cursor_ok_page_up:
  assumes "cursor_ok s"
  shows "cursor_ok (page_up rows s)"
proof (cases "cur_y s = 0")
  case True
  with assms show ?thesis by (simp add: page_up_def Let_def)
next
  case False
  from assms have "0 \<le> cur_y s" "cur_y s < num_lines s" "0 \<le> cur_x s"
    by (simp_all add: cursor_ok_def)
  with False show ?thesis
    by (auto simp: page_up_def Let_def num_lines_def intro!: cursor_ok_clamp_x)
qed

lemma cursor_ok_page_down:
  assumes "cursor_ok s"
  shows "cursor_ok (page_down rows s)"
proof (cases "cur_y s \<ge> num_lines s - 1")
  case True
  with assms show ?thesis by (simp add: page_down_def Let_def)
next
  case False
  from assms have "0 \<le> cur_y s" "cur_y s < num_lines s" "0 \<le> cur_x s"
    by (simp_all add: cursor_ok_def)
  with False show ?thesis
    by (auto simp: page_down_def Let_def num_lines_def intro!: cursor_ok_clamp_x)
qed

lemma cursor_ok_draw_screen: "cursor_ok s \<Longrightarrow> cursor_ok (draw_screen rows cols s)"
  by (auto simp: draw_screen_def Let_def cursor_ok_def num_lines_def)

lemma strstr_bound: "strstr hay needle = Some i \<Longrightarrow> i + length needle \<le> length hay"
proof (induction hay arbitrary: i)
  case Nil
  then show ?case by (simp split: if_splits)
next
  case (Cons c hay)
  show ?case
  proof (cases "take (length needle) (c # hay) = needle")
    case True
    then have "length (take (length needle) (c # hay)) = length needle"
      by simp
    then have "length needle \<le> length (c # hay)"
      by (simp only: length_take)
    with True Cons.prems show ?thesis by simp
  next
    case False
    with Cons.prems obtain j where "strstr hay needle = Some j" "i = Suc j"
      by auto
    with Cons.IH show ?thesis by fastforce
  qed
qed

lemma scan_lines_bound:
  "scan_lines q rows b = Some (y, x) \<Longrightarrow>
   b \<le> y \<and> nat (y - b) < length rows \<and> 0 \<le> x \<and> x \<le> int (length (rows ! nat (y - b)))"
proof (induction rows arbitrary: b)
  case Nil
  then show ?case by simp
next
  case (Cons ln rest)
  show ?case
  proof (cases "strstr ln q")
    case None
    with Cons.prems have "scan_lines q rest (b + 1) = Some (y, x)" by simp
    from Cons.IH [OF this] have *: "b + 1 \<le> y" "nat (y - (b + 1)) < length rest" "0 \<le> x"
      "x \<le> int (length (rest ! nat (y - (b + 1))))" by simp_all
    from *(1) have "nat (y - b) = Suc (nat (y - (b + 1)))" by simp
    with * show ?thesis by simp
  next
    case (Some i)
    with Cons.prems have "y = b" "x = int i" by simp_all
    with strstr_bound [OF Some] show ?thesis by simp
  qed
qed

lemma search_forward_keeps:
  assumes "cursor_ok s" and "search_forward spare s = Inr s'"
  shows "cursor_ok s' \<and> undo_stack s' = undo_stack s \<and> redo_stack s' = redo_stack s"
proof (cases "search_query s = []")
  case True
  with assms show ?thesis
    by (auto simp: search_forward_def beep_def cursor_ok_def num_lines_def)
next
  case False
  let ?q = "search_query s" and ?y = "nat (cur_y s)" and ?x = "nat (cur_x s + 1)"
  let ?ls = "lines s"
  from assms(1) have y: "0 \<le> cur_y s" "?y < length ?ls" "cur_y s < int (length ?ls)"
    and x: "0 \<le> cur_x s"
    by (auto simp: cursor_ok_def num_lines_def)
  from assms(2) False have guard:
    "cur_x s + 1 \<le> int (length (?ls ! ?y)) \<or>
     (cur_x s + 1 = int (length (?ls ! ?y)) + 1 \<and> spare)"
    by (simp add: search_forward_def Let_def split: if_splits)
  from False y x guard have unfold:
    "search_forward spare s =
      (case strstr (drop ?x (?ls ! ?y)) ?q of
        Some i \<Rightarrow> Inr (s\<lparr>cur_y := cur_y s, cur_x := cur_x s + 1 + int i\<rparr>)
      | None \<Rightarrow>
        (case scan_lines ?q (drop (Suc ?y) ?ls) (cur_y s + 1) of
           Some (y, x) \<Rightarrow> Inr (s\<lparr>cur_y := y, cur_x := x\<rparr>)
         | None \<Rightarrow>
           (case scan_lines ?q (take ?y ?ls) 0 of
              Some (y, x) \<Rightarrow> Inr (s\<lparr>cur_y := y, cur_x := x\<rparr>)
            | None \<Rightarrow> Inr (beep s))))"
    by (auto simp add: search_forward_def Let_def num_lines_def)
  note run = assms(2) [unfolded unfold]
  show ?thesis
  proof (cases "strstr (drop ?x (?ls ! ?y)) ?q")
    case (Some i)
    from False have "0 < length ?q" by simp
    with strstr_bound [OF Some] have "Suc i \<le> length (?ls ! ?y) - nat (cur_x s + 1)"
      by (simp only: length_drop)
    with x have "cur_x s + 1 + int i \<le> int (length (?ls ! ?y))"
      by linarith
    with run Some y x show ?thesis
      by (auto simp: cursor_ok_def num_lines_def)
  next
    case None
    note first = this
    show ?thesis
    proof (cases "scan_lines ?q (drop (Suc ?y) ?ls) (cur_y s + 1)")
      case (Some p)
      obtain y' x' where p: "p = (y', x')" by (cases p)
      from scan_lines_bound [OF Some [unfolded p]]
      have b: "cur_y s + 1 \<le> y'" "nat (y' - (cur_y s + 1)) < length (drop (Suc ?y) ?ls)"
        "0 \<le> x'" "x' \<le> int (length (drop (Suc ?y) ?ls ! nat (y' - (cur_y s + 1))))"
        by simp_all
      from b(1) y(1) have idx: "Suc ?y + nat (y' - (cur_y s + 1)) = nat y'"
        by simp
      from b(2) have "Suc ?y + nat (y' - (cur_y s + 1)) < length ?ls"
        by simp
      with idx have lt: "nat y' < length ?ls" by simp
      from b(4) b(2) idx have "x' \<le> int (length (?ls ! nat y'))"
        by (simp add: nth_drop)
      with run first Some p b(1,3) y(1) lt show ?thesis
        by (auto simp: cursor_ok_def num_lines_def)
    next
      case None
      note second = this
      show ?thesis
      proof (cases "scan_lines ?q (take ?y ?ls) 0")
        case (Some p)
        obtain y' x' where p: "p = (y', x')" by (cases p)
        have b: "0 \<le> y'" "nat y' < length (take ?y ?ls)" "0 \<le> x'"
          "x' \<le> int (length (take ?y ?ls ! nat y'))"
          using scan_lines_bound [OF Some [unfolded p]] unfolding diff_zero by blast+
        from b(2) have lt: "nat y' < length ?ls" "nat y' < ?y" by simp_all
        from lt(2) have "take ?y ?ls ! nat y' = ?ls ! nat y'" by (rule nth_take)
        with b(4) have "x' \<le> int (length (?ls ! nat y'))" by (simp only:)
        with run first second Some p b(1,3) lt show ?thesis
          by (auto simp: cursor_ok_def num_lines_def)
      next
        case None
        with run first second assms(1) show ?thesis
          by (auto simp: beep_def cursor_ok_def num_lines_def)
      qed
    qed
  qed
qed

lemma prompt_search_keeps:
  assumes "cursor_ok s" and "prompt_search entered spare s = Inr s'"
  shows "cursor_ok s' \<and> undo_stack s' = undo_stack s \<and> redo_stack s' = redo_stack s"
proof (cases entered)
  case None
  with assms show ?thesis by (simp add: prompt_search_def)
next
  case (Some buf)
  define t where "t = s\<lparr>search_query := take (MAX_SEARCH - 1) buf\<rparr>"
  from assms(1) have ok: "cursor_ok t"
    by (simp add: t_def cursor_ok_def num_lines_def)
  from assms(2) Some have run: "search_forward spare t = Inr s'"
    by (simp add: prompt_search_def t_def)
  have "undo_stack t = undo_stack s" "redo_stack t = redo_stack s"
    by (simp_all add: t_def)
  with search_forward_keeps [OF ok run] show ?thesis
    by (simp only:)
qed

lemma nav_stacks [simp]:
  "undo_stack (key_up s) = undo_stack s" "redo_stack (key_up s) = redo_stack s"
  "undo_stack (key_down s) = undo_stack s" "redo_stack (key_down s) = redo_stack s"
  "undo_stack (key_left s) = undo_stack s" "redo_stack (key_left s) = redo_stack s"
  "undo_stack (key_right s) = undo_stack s" "redo_stack (key_right s) = redo_stack s"
  "undo_stack (page_up rows s) = undo_stack s" "redo_stack (page_up rows s) = redo_stack s"
  "undo_stack (page_down rows s) = undo_stack s" "redo_stack (page_down rows s) = redo_stack s"
  "undo_stack (draw_screen rows cols s) = undo_stack s"
  "redo_stack (draw_screen rows cols s) = redo_stack s"
  by (simp_all add: key_up_def key_down_def key_left_def key_right_def page_up_def
      page_down_def draw_screen_def Let_def)

lemma state_ok_stacks:
  "state_ok s \<Longrightarrow> undo_stack t = undo_stack s \<Longrightarrow> redo_stack t = redo_stack s \<Longrightarrow>
   cursor_ok t \<Longrightarrow> state_ok t"
  by (simp add: state_ok_def undo_count_def redo_count_def)

lemma state_ok_nav:
  assumes "state_ok s"
  shows "state_ok (key_up s)" "state_ok (key_down s)" "state_ok (key_left s)"
    "state_ok (key_right s)" "state_ok (page_up rows s)" "state_ok (page_down rows s)"
    "state_ok (draw_screen rows cols s)"
proof -
  from assms have c: "cursor_ok s" by (simp add: state_ok_def)
  show "state_ok (key_up s)"
    by (rule state_ok_stacks [OF assms]) (simp_all add: cursor_ok_key_up c)
  show "state_ok (key_down s)"
    by (rule state_ok_stacks [OF assms]) (simp_all add: cursor_ok_key_down c)
  show "state_ok (key_left s)"
    by (rule state_ok_stacks [OF assms]) (simp_all add: cursor_ok_key_left c)
  show "state_ok (key_right s)"
    by (rule state_ok_stacks [OF assms]) (simp_all add: cursor_ok_key_right c)
  show "state_ok (page_up rows s)"
    by (rule state_ok_stacks [OF assms]) (simp_all add: cursor_ok_page_up c)
  show "state_ok (page_down rows s)"
    by (rule state_ok_stacks [OF assms]) (simp_all add: cursor_ok_page_down c)
  show "state_ok (draw_screen rows cols s)"
    by (rule state_ok_stacks [OF assms]) (simp_all add: cursor_ok_draw_screen c)
qed

lemma state_ok_search_forward:
  assumes "state_ok s" and "search_forward spare s = Inr s'"
  shows "state_ok s'"
proof -
  from assms(1) have "cursor_ok s" by (simp add: state_ok_def)
  from search_forward_keeps [OF this assms(2)] show ?thesis
    by (blast intro: state_ok_stacks [OF assms(1)])
qed

lemma state_ok_prompt_search:
  assumes "state_ok s" and "prompt_search entered spare s = Inr s'"
  shows "state_ok s'"
proof -
  from assms(1) have "cursor_ok s" by (simp add: state_ok_def)
  from prompt_search_keeps [OF this assms(2)] show ?thesis
    by (blast intro: state_ok_stacks [OF assms(1)])
qed

lemma reachable_state_ok: "reachable s \<Longrightarrow> state_ok s"
proof (induction rule: reachable.induct)
  case (loaded f)
  show ?case by (rule state_ok_load_file)
next
  case (undone s ok s')
  with state_ok_do_undo [of s ok] show ?case by auto
next
  case (redone s ok s')
  with state_ok_do_redo [of s ok] show ?case by auto
next
  case (prompted s entered spare s')
  then show ?case by (blast intro: state_ok_prompt_search)
next
  case (searched s spare s')
  then show ?case by (blast intro: state_ok_search_forward)
qed (simp_all add: state_ok_insert_char state_ok_backspace state_ok_newline state_ok_nav)

lemma load_empty_file: "load_file (Some []) = editor_init [[]]"
  by (simp add: load_file_def)

lemma backspace_empty:
  "backspace True (editor_init [[]]) =
     (editor_init [[]])\<lparr>undo_stack :=
        [\<lparr>snap_lines = Some [[]], snap_cur_x = 0, snap_cur_y = 0, snap_top_line = 0\<rparr>]\<rparr>"
  by (simp add: backspace_def push_undo_def Let_def editor_init_def undo_count_def
      UNDO_DEPTH_def capture_def)

lemma undo_backspace_empty:
  "do_undo True (backspace True (load_file (Some []))) =
     Inr ((editor_init [[]])\<lparr>redo_stack :=
        [\<lparr>snap_lines = Some [[]], snap_cur_x = 0, snap_cur_y = 0, snap_top_line = 0\<rparr>]\<rparr>)"
  by (simp add: load_empty_file backspace_empty)
    (simp add: do_undo_def save_on_def restore_def capture_def editor_init_def Let_def
      undo_count_def UNDO_DEPTH_def)

section \<open>At least one line\<close>

text \<open>
  In a run \<open>do_undo\<close> and \<open>do_redo\<close> never read through a \<open>NULL\<close> pointer.
\<close>

lemma reachable_undo_redo_defined:
  assumes "reachable s"
  shows "(\<exists>s'. do_undo ok s = Inr s') \<and> (\<exists>s'. do_redo ok s = Inr s')"
  using state_ok_do_undo [OF reachable_state_ok [OF assms], of ok]
    state_ok_do_redo [OF reachable_state_ok [OF assms], of ok]
  by blast

text \<open>
  Claim C6. The document always has at least one line: the state \<open>load_file\<close> builds
  has one, and \<open>insert_char\<close>, \<open>backspace\<close> (the merge included), \<open>newline\<close>,
  \<open>do_undo\<close> and \<open>do_redo\<close> keep it so, whatever the allocation outcomes and the
  screen size, and whatever cursor keys, searches and redraws come in between. Hence
  \<open>num_lines \<ge> 1\<close> in every state of a run; moreover the cursor is inside the document
  and every snapshot on either stack has its lines, at least one, which is what
  \<open>do_undo\<close> and \<open>do_redo\<close> need.
\<close>

theorem document_never_empty:
  assumes "reachable s"
  shows "1 \<le> num_lines s \<and> cursor_ok s \<and>
         list_all (\<lambda>sn. \<exists>ls. snap_lines sn = Some ls \<and> 1 \<le> length ls) (undo_stack s) \<and>
         list_all (\<lambda>sn. \<exists>ls. snap_lines sn = Some ls \<and> 1 \<le> length ls) (redo_stack s)"
proof -
  have one: "snap_ok sn \<Longrightarrow> \<exists>ls. snap_lines sn = Some ls \<and> 1 \<le> length ls" for sn
    by (cases "snap_lines sn") (auto simp: snap_ok_def)
  from reachable_state_ok [OF assms]
  have ok: "cursor_ok s" and u: "list_all snap_ok (undo_stack s)"
    and r: "list_all snap_ok (redo_stack s)"
    by (simp_all add: state_ok_def)
  from ok have "1 \<le> num_lines s"
    by (simp add: cursor_ok_def)
  moreover from u
  have "list_all (\<lambda>sn. \<exists>ls. snap_lines sn = Some ls \<and> 1 \<le> length ls) (undo_stack s)"
    by (rule list.pred_mono_strong) (rule one)
  moreover from r
  have "list_all (\<lambda>sn. \<exists>ls. snap_lines sn = Some ls \<and> 1 \<le> length ls) (redo_stack s)"
    by (rule list.pred_mono_strong) (rule one)
  ultimately show ?thesis using ok by simp
qed

text \<open>
  Loading an empty file gives one empty line; Backspace there and an undo after it are
  steps of a run, and the document still has its line.
\<close>

theorem document_never_empty_witness:
  "lines (load_file (Some [])) = [[]] \<and>
   lines (backspace True (load_file (Some []))) = [[]] \<and>
   do_undo True (backspace True (load_file (Some []))) =
     Inr ((editor_init [[]])\<lparr>redo_stack :=
        [\<lparr>snap_lines = Some [[]], snap_cur_x = 0, snap_cur_y = 0, snap_top_line = 0\<rparr>]\<rparr>) \<and>
   reachable ((editor_init [[]])\<lparr>redo_stack :=
        [\<lparr>snap_lines = Some [[]], snap_cur_x = 0, snap_cur_y = 0, snap_top_line = 0\<rparr>]\<rparr>) \<and>
   1 \<le> num_lines ((editor_init [[]])\<lparr>redo_stack :=
        [\<lparr>snap_lines = Some [[]], snap_cur_x = 0, snap_cur_y = 0, snap_top_line = 0\<rparr>]\<rparr>)"
proof -
  let ?u = "(editor_init [[]])\<lparr>redo_stack :=
        [\<lparr>snap_lines = Some [[]], snap_cur_x = 0, snap_cur_y = 0, snap_top_line = 0\<rparr>]\<rparr>"
  have "reachable (backspace True (load_file (Some [])))"
    by (rule reachable.erased, rule reachable.loaded)
  then have r: "reachable ?u"
    using undo_backspace_empty by (rule reachable.undone)
  have l: "lines (load_file (Some [])) = [[]]" "lines (backspace True (load_file (Some []))) = [[]]"
    by (simp_all add: load_empty_file backspace_empty) (simp_all add: editor_init_def)
  from document_never_empty [OF r] r l undo_backspace_empty show ?thesis
    by (simp only:)
qed

section \<open>Searching\<close>

text \<open>
  Claim C5 says that \<open>search_forward\<close>, after the rows from the cursor onwards, wraps
  around to the document start and also covers the part of the start row before the
  start position. The second loop of the code stops before the start row
  (\<open>y < start_y\<close>). In the document \<open>ab cd\<close>, \<open>ef\<close> with the cursor at row 0 column 3
  and the query \<open>ab\<close>, the only occurrence is at row 0 column 0, before the cursor:
  the code finds nothing, rings the bell and leaves the cursor where it was, whether or
  not the buffer of the row has a spare byte.
\<close>

theorem search_forward_misses_start_row:
  "cursor_ok ((editor_init [''ab cd'', ''ef''])\<lparr>cur_x := 3, search_query := ''ab''\<rparr>) \<and>
   strstr ''ab cd'' ''ab'' = Some 0 \<and>
   search_forward False ((editor_init [''ab cd'', ''ef''])\<lparr>cur_x := 3, search_query := ''ab''\<rparr>) =
     Inr (beep ((editor_init [''ab cd'', ''ef''])\<lparr>cur_x := 3, search_query := ''ab''\<rparr>)) \<and>
   search_forward True ((editor_init [''ab cd'', ''ef''])\<lparr>cur_x := 3, search_query := ''ab''\<rparr>) =
     Inr (beep ((editor_init [''ab cd'', ''ef''])\<lparr>cur_x := 3, search_query := ''ab''\<rparr>))"
  by (simp add: cursor_ok_def search_forward_def editor_init_def num_lines_def Let_def)

text \<open>
  The example of the claim has the cursor at row 2 column 3 of \<open>abc\<close>, \<open>xzy\<close>, \<open>abx\<close>,
  the end of the last line: the first \<open>strstr\<close> starts one byte behind the terminating
  NUL. In a buffer as \<open>load_file\<close> allocates it this read is a fault; in a buffer with a
  spare byte the search wraps around to row 0 column 0, as it does from column 2.
\<close>

lemma search_forward_spec_example:
  "search_forward False ((editor_init [''abc'', ''xzy'', ''abx''])
      \<lparr>cur_x := 3, cur_y := 2, search_query := ''ab''\<rparr>) = Inl Out_of_bounds"
  "search_forward True ((editor_init [''abc'', ''xzy'', ''abx''])
      \<lparr>cur_x := 3, cur_y := 2, search_query := ''ab''\<rparr>) =
   Inr ((editor_init [''abc'', ''xzy'', ''abx''])
      \<lparr>cur_x := 0, cur_y := 0, search_query := ''ab''\<rparr>)"
  by (simp_all add: search_forward_def editor_init_def num_lines_def Let_def)

lemma search_forward_wraps_to_earlier_row:
  "search_forward spare ((editor_init [''abc'', ''xzy'', ''abx''])
      \<lparr>cur_x := 2, cur_y := 2, search_query := ''ab''\<rparr>) =
   Inr ((editor_init [''abc'', ''xzy'', ''abx''])
      \<lparr>cur_x := 0, cur_y := 0, search_query := ''ab''\<rparr>)"
  by (simp add: search_forward_def editor_init_def num_lines_def Let_def)

end
